theory Spec2Isabelle
  imports Complex_Main
begin

section \<open>JavaScript numbers\<close>

text \<open>
  A JavaScript \<^verbatim>\<open>number\<close> is modelled as a real number or one of the three special values
  of IEEE-754. The special values follow the IEEE rules (\<^verbatim>\<open>Infinity - Infinity\<close>,
  \<^verbatim>\<open>0 * Infinity\<close> and \<^verbatim>\<open>0 / 0\<close> are \<^verbatim>\<open>NaN\<close>, \<^verbatim>\<open>NaN\<close> is absorbing and compares false with
  everything). Finite values are computed exactly: rounding and the sign of zero are not
  modelled, and of overflow and underflow only those of \<^verbatim>\<open>Math.exp\<close>.
\<close>

datatype jsnum = Fin real | PosInf | NegInf | NaN

fun jadd :: "jsnum \<Rightarrow> jsnum \<Rightarrow> jsnum" where
  "jadd NaN _ = NaN"
| "jadd _ NaN = NaN"
| "jadd (Fin a) (Fin b) = Fin (a + b)"
| "jadd PosInf NegInf = NaN"
| "jadd NegInf PosInf = NaN"
| "jadd PosInf _ = PosInf"
| "jadd _ PosInf = PosInf"
| "jadd NegInf _ = NegInf"
| "jadd _ NegInf = NegInf"

fun jneg :: "jsnum \<Rightarrow> jsnum" where
  "jneg (Fin a) = Fin (- a)"
| "jneg PosInf = NegInf"
| "jneg NegInf = PosInf"
| "jneg NaN = NaN"

definition jsub :: "jsnum \<Rightarrow> jsnum \<Rightarrow> jsnum" where
  "jsub a b = jadd a (jneg b)"

fun jmul :: "jsnum \<Rightarrow> jsnum \<Rightarrow> jsnum" where
  "jmul NaN _ = NaN"
| "jmul _ NaN = NaN"
| "jmul (Fin a) (Fin b) = Fin (a * b)"
| "jmul (Fin a) PosInf = (if a = 0 then NaN else if 0 < a then PosInf else NegInf)"
| "jmul (Fin a) NegInf = (if a = 0 then NaN else if 0 < a then NegInf else PosInf)"
| "jmul PosInf (Fin b) = (if b = 0 then NaN else if 0 < b then PosInf else NegInf)"
| "jmul NegInf (Fin b) = (if b = 0 then NaN else if 0 < b then NegInf else PosInf)"
| "jmul PosInf PosInf = PosInf"
| "jmul PosInf NegInf = NegInf"
| "jmul NegInf PosInf = NegInf"
| "jmul NegInf NegInf = PosInf"

fun jdiv :: "jsnum \<Rightarrow> jsnum \<Rightarrow> jsnum" where
  "jdiv NaN _ = NaN"
| "jdiv _ NaN = NaN"
| "jdiv (Fin a) (Fin b) =
     (if b = 0 then (if a = 0 then NaN else if 0 < a then PosInf else NegInf)
      else Fin (a / b))"
| "jdiv (Fin a) PosInf = Fin 0"
| "jdiv (Fin a) NegInf = Fin 0"
| "jdiv PosInf (Fin b) = (if 0 \<le> b then PosInf else NegInf)"
| "jdiv NegInf (Fin b) = (if 0 \<le> b then NegInf else PosInf)"
| "jdiv PosInf PosInf = NaN"
| "jdiv PosInf NegInf = NaN"
| "jdiv NegInf PosInf = NaN"
| "jdiv NegInf NegInf = NaN"

text \<open>\<^verbatim>\<open>Math.log\<close>, the exact exponential, and \<^verbatim>\<open>Math.abs\<close>.\<close>

fun jlog :: "jsnum \<Rightarrow> jsnum" where
  "jlog (Fin a) = (if 0 < a then Fin (ln a) else if a = 0 then NegInf else NaN)"
| "jlog PosInf = PosInf"
| "jlog NegInf = NaN"
| "jlog NaN = NaN"

fun jexp :: "jsnum \<Rightarrow> jsnum" where
  "jexp (Fin a) = Fin (exp a)"
| "jexp PosInf = PosInf"
| "jexp NegInf = Fin 0"
| "jexp NaN = NaN"

text \<open>
  \<^verbatim>\<open>Math.exp\<close> on doubles. Half the smallest positive double, \<^verbatim>\<open>2^-1075\<close>, is above
  \<open>exp (-746)\<close>, and the largest double is below \<open>exp 710\<close>: the result is 0 for every argument
  below \<open>-746\<close> and \<^verbatim>\<open>Infinity\<close> for every argument above 710. In between, the exponential is
  taken exactly.
\<close>

definition Math_exp :: "jsnum \<Rightarrow> jsnum" where
  "Math_exp x =
     (case x of
        Fin a \<Rightarrow> if a < - 746 then Fin 0 else if 710 < a then PosInf else Fin (exp a)
      | _ \<Rightarrow> jexp x)"

fun jabs :: "jsnum \<Rightarrow> jsnum" where
  "jabs (Fin a) = Fin \<bar>a\<bar>"
| "jabs PosInf = PosInf"
| "jabs NegInf = PosInf"
| "jabs NaN = NaN"

text \<open>The comparisons \<^verbatim>\<open>a < b\<close>, \<^verbatim>\<open>a > b\<close> and \<^verbatim>\<open>a === b\<close>: false whenever an operand is \<^verbatim>\<open>NaN\<close>.\<close>

fun jlt :: "jsnum \<Rightarrow> jsnum \<Rightarrow> bool" where
  "jlt NaN _ = False"
| "jlt _ NaN = False"
| "jlt (Fin a) (Fin b) = (a < b)"
| "jlt PosInf _ = False"
| "jlt _ PosInf = True"
| "jlt NegInf NegInf = False"
| "jlt NegInf _ = True"
| "jlt _ NegInf = False"

definition jgt :: "jsnum \<Rightarrow> jsnum \<Rightarrow> bool" where
  "jgt a b = jlt b a"

definition jeq :: "jsnum \<Rightarrow> jsnum \<Rightarrow> bool" where
  "jeq a b = (a \<noteq> NaN \<and> a = b)"

text \<open>\<^verbatim>\<open>isNaN(x)\<close>.\<close>

definition isNaN :: "jsnum \<Rightarrow> bool" where
  "isNaN a = (a = NaN)"

text \<open>
  \<^verbatim>\<open>Math.max(...xs)\<close>: \<^verbatim>\<open>-Infinity\<close> for no argument, \<^verbatim>\<open>NaN\<close> as soon as one argument is
  \<^verbatim>\<open>NaN\<close>.
\<close>

fun jmax2 :: "jsnum \<Rightarrow> jsnum \<Rightarrow> jsnum" where
  "jmax2 NaN _ = NaN"
| "jmax2 _ NaN = NaN"
| "jmax2 (Fin a) (Fin b) = Fin (max a b)"
| "jmax2 PosInf _ = PosInf"
| "jmax2 _ PosInf = PosInf"
| "jmax2 NegInf b = b"
| "jmax2 a NegInf = a"

definition Math_max :: "jsnum list \<Rightarrow> jsnum" where
  "Math_max xs = foldl jmax2 NegInf xs"

text \<open>
  Reading an array beyond its end gives \<^verbatim>\<open>undefined\<close> (\<open>None\<close>). In \<^verbatim>\<open>x || d\<close> the values
  \<^verbatim>\<open>undefined\<close>, \<^verbatim>\<open>0\<close> and \<^verbatim>\<open>NaN\<close> are falsy; in arithmetic \<^verbatim>\<open>undefined\<close> converts to \<^verbatim>\<open>NaN\<close>.
  An assignment \<^verbatim>\<open>a[i] = v\<close> beyond the end extends the array; the slots in between are
  holes, for which the model takes a filler value \<open>d\<close>.
\<close>

definition aget :: "'a list \<Rightarrow> nat \<Rightarrow> 'a option" where
  "aget xs i = (if i < length xs then Some (xs ! i) else None)"

definition aset :: "'a \<Rightarrow> 'a list \<Rightarrow> nat \<Rightarrow> 'a \<Rightarrow> 'a list" where
  "aset d xs i v =
     (if i < length xs then xs[i := v] else xs @ replicate (i - length xs) d @ [v])"

fun jor :: "jsnum option \<Rightarrow> jsnum \<Rightarrow> jsnum" where
  "jor None d = d"
| "jor (Some x) d = (if x = Fin 0 \<or> x = NaN then d else x)"

fun toNumber :: "jsnum option \<Rightarrow> jsnum" where
  "toNumber None = NaN"
| "toNumber (Some x) = x"

text \<open>\<^verbatim>\<open>xs.reduce((a, b) => a + b, 0)\<close>.\<close>

definition jsum :: "jsnum list \<Rightarrow> jsnum" where
  "jsum xs = foldl jadd (Fin 0) xs"

text \<open>\<^verbatim>\<open>xs.indexOf(x)\<close> and \<^verbatim>\<open>xs.findIndex(p)\<close>; \<open>None\<close> stands for the result \<^verbatim>\<open>-1\<close>.\<close>

fun findIndex :: "('a \<Rightarrow> bool) \<Rightarrow> 'a list \<Rightarrow> nat option" where
  "findIndex p [] = None"
| "findIndex p (x # xs) =
     (if p x then Some 0 else map_option Suc (findIndex p xs))"

definition indexOf :: "'a list \<Rightarrow> 'a \<Rightarrow> nat option" where
  "indexOf xs x = findIndex (\<lambda>y. y = x) xs"

section \<open>Exceptions\<close>

text \<open>
  A computation that may throw returns \<open>error + 'a\<close>. A method that mutates the engine
  returns an \<open>outcome\<close>: it completes with the new state, or throws and leaves the state
  as it was at the throw (JavaScript does not roll back).
\<close>

datatype error = TypeError | RangeError | DimensionError | Error string

datatype 's outcome = Done 's | Threw error 's

fun state_of :: "'s outcome \<Rightarrow> 's" where
  "state_of (Done s) = s"
| "state_of (Threw e s) = s"

fun threw :: "'s outcome \<Rightarrow> bool" where
  "threw (Done s) = False"
| "threw (Threw e s) = True"

fun bindE :: "error + 'a \<Rightarrow> ('a \<Rightarrow> error + 'b) \<Rightarrow> error + 'b" where
  "bindE (Inl e) f = Inl e"
| "bindE (Inr v) f = f v"

fun mapE :: "('a \<Rightarrow> error + 'b) \<Rightarrow> 'a list \<Rightarrow> error + 'b list" where
  "mapE f [] = Inr []"
| "mapE f (x # xs) = bindE (f x) (\<lambda>y. bindE (mapE f xs) (\<lambda>ys. Inr (y # ys)))"

fun foldlE :: "('b \<Rightarrow> 'a \<Rightarrow> error + 'b) \<Rightarrow> 'b \<Rightarrow> 'a list \<Rightarrow> error + 'b" where
  "foldlE f a [] = Inr a"
| "foldlE f a (x # xs) = bindE (f a x) (\<lambda>a'. foldlE f a' xs)"

fun andThen :: "'s outcome \<Rightarrow> ('s \<Rightarrow> 's outcome) \<Rightarrow> 's outcome" where
  "andThen (Done s) f = f s"
| "andThen (Threw e s) f = Threw e s"

text \<open>\<open>run s r k\<close>: evaluate \<open>r\<close> in state \<open>s\<close>; a throw leaves \<open>s\<close>, a value goes on with \<open>k\<close>.\<close>

fun run :: "'s \<Rightarrow> error + 'a \<Rightarrow> ('a \<Rightarrow> 's outcome) \<Rightarrow> 's outcome" where
  "run s (Inl e) k = Threw e s"
| "run s (Inr v) k = k v"

text \<open>\<^verbatim>\<open>for (const x of xs) body\<close> over a list that the body does not change.\<close>

fun forEach :: "'a list \<Rightarrow> ('a \<Rightarrow> 's \<Rightarrow> 's outcome) \<Rightarrow> 's \<Rightarrow> 's outcome" where
  "forEach [] body s = Done s"
| "forEach (x # xs) body s = andThen (body x s) (forEach xs body)"

text \<open>
  Objects are referred to by their position in \<^verbatim>\<open>graph.nodes\<close>. \<open>deref\<close> follows such a
  reference; \<open>cell m a b\<close> reads \<^verbatim>\<open>m[a][b]\<close> and \<open>set_cell d m a b v\<close> performs
  \<^verbatim>\<open>m[a][b] = v\<close>, both throwing a \<^verbatim>\<open>TypeError\<close> when the row \<^verbatim>\<open>m[a]\<close> is \<^verbatim>\<open>undefined\<close>.
\<close>

definition deref :: "'n list \<Rightarrow> nat \<Rightarrow> error + 'n" where
  "deref ns p = (case aget ns p of None \<Rightarrow> Inl TypeError | Some n \<Rightarrow> Inr n)"

definition cell :: "'a list list \<Rightarrow> nat \<Rightarrow> nat \<Rightarrow> error + 'a option" where
  "cell m a b = (case aget m a of None \<Rightarrow> Inl TypeError | Some r \<Rightarrow> Inr (aget r b))"

definition set_cell :: "'a \<Rightarrow> 'a list list \<Rightarrow> nat \<Rightarrow> nat \<Rightarrow> 'a \<Rightarrow> error + 'a list list" where
  "set_cell d m a b v =
     (case aget m a of None \<Rightarrow> Inl TypeError | Some r \<Rightarrow> Inr (m[a := aset d r b v]))"

text \<open>A value that must be defined before it is used (\<^verbatim>\<open>x.map\<close>, \<^verbatim>\<open>x[i]\<close>, \<^verbatim>\<open>[...x]\<close>).\<close>

definition defined :: "'a option \<Rightarrow> error + 'a" where
  "defined x = (case x of None \<Rightarrow> Inl TypeError | Some v \<Rightarrow> Inr v)"

section \<open>Numeric utilities (util.ts)\<close>

definition LOG_EPSILON :: jsnum where
  "LOG_EPSILON = Fin (1 / 10 ^ 10)"

definition logSumExp :: "jsnum list \<Rightarrow> jsnum" where
  "logSumExp logValues =
     (if length logValues = 0 then LOG_EPSILON
      else let maxLogValue = Math_max logValues in
        if jeq maxLogValue NegInf then LOG_EPSILON
        else jadd maxLogValue
               (jlog (foldl (\<lambda>sum logVal. jadd sum (Math_exp (jsub logVal maxLogValue)))
                        (Fin 0) logValues)))"

definition dampMessage :: "jsnum list \<Rightarrow> jsnum list \<Rightarrow> jsnum \<Rightarrow> jsnum list" where
  "dampMessage newMsg prevMsg dampingFactor =
     (let damped = map (\<lambda>(val, idx).
                          jadd (jmul dampingFactor val)
                               (jmul (jsub (Fin 1) dampingFactor) (toNumber (aget prevMsg idx))))
                       (zip newMsg [0..<length newMsg]);
          sum = jsum damped
      in map (\<lambda>x. jdiv x sum) damped)"

record GaussianMessage =
  mean :: jsnum
  precision :: jsnum

definition gaussianDampMessage ::
  "GaussianMessage \<Rightarrow> GaussianMessage \<Rightarrow> jsnum \<Rightarrow> GaussianMessage" where
  "gaussianDampMessage newMsg prevMsg dampingFactor =
     \<lparr> mean = jadd (jmul dampingFactor (mean newMsg))
                   (jmul (jsub (Fin 1) dampingFactor) (mean prevMsg)),
       precision = jadd (jmul dampingFactor (precision newMsg))
                        (jmul (jsub (Fin 1) dampingFactor) (precision prevMsg)) \<rparr>"

definition normalize_vec :: "jsnum list \<Rightarrow> jsnum list" where
  "normalize_vec values = (let sum = jsum values in map (\<lambda>x. jdiv x sum) values)"

section \<open>Factor graphs (util.ts)\<close>

datatype GraphType = FACTOR | VARIABLE

text \<open>
  What the engines write to the console: \<^verbatim>\<open>Invalid edge: (from, to)\<close>,
  \<^verbatim>\<open>Converged after k iterations\<close> and \<^verbatim>\<open>Did not converge after n iterations\<close>.
\<close>

datatype console_line = InvalidEdge nat nat | ConvergedAfter nat | DidNotConvergeAfter nat

text \<open>
  \<^verbatim>\<open>nodeDict = Object.fromEntries(nodes)\<close> is an ordinary object, and \<^verbatim>\<open>k in nodeDict\<close> is true
  for its own keys and for the keys it inherits from \<^verbatim>\<open>Object.prototype\<close>. An inherited
  value has no \<^verbatim>\<open>id\<close>, so \<^verbatim>\<open>nodeDict[k]?.id || 0\<close> is \<^verbatim>\<open>0\<close> for it.
\<close>

definition object_prototype_keys :: "string list" where
  "object_prototype_keys =
     [''constructor'', ''__defineGetter__'', ''__defineSetter__'', ''hasOwnProperty'',
      ''__lookupGetter__'', ''__lookupSetter__'', ''isPrototypeOf'',
      ''propertyIsEnumerable'', ''toString'', ''valueOf'', ''__proto__'',
      ''toLocaleString'']"

definition has_property :: "(string \<times> 'n) list \<Rightarrow> string \<Rightarrow> bool" where
  "has_property nodes k = (k \<in> set (map fst nodes) \<or> k \<in> set object_prototype_keys)"

definition id_or_0 :: "('n \<Rightarrow> nat) \<Rightarrow> (string \<times> 'n) list \<Rightarrow> string \<Rightarrow> nat" where
  "id_or_0 idf nodes k = (case map_of (rev nodes) k of None \<Rightarrow> 0 | Some n \<Rightarrow> idf n)"

text \<open>The \<^verbatim>\<open>filter\<close>, \<^verbatim>\<open>map\<close>, \<^verbatim>\<open>flatMap\<close> pipeline of \<^verbatim>\<open>processGraph\<close> on the input edges.\<close>

definition resolve_edges ::
  "('n \<Rightarrow> nat) \<Rightarrow> (string \<times> 'n) list \<Rightarrow> (string \<times> string) list \<Rightarrow> (nat \<times> nat) list" where
  "resolve_edges idf nodes edges =
     concat (map (\<lambda>(from, to). [(from, to), (to, from)])
       (map (\<lambda>(from, to). (id_or_0 idf nodes from, id_or_0 idf nodes to))
         (filter (\<lambda>(from, to). has_property nodes from \<and> has_property nodes to) edges)))"

text \<open>
  The body of \<^verbatim>\<open>edges.forEach\<close> in \<^verbatim>\<open>processGraph\<close>, for a node type with its \<^verbatim>\<open>type\<close> field
  \<open>kind\<close> and \<^verbatim>\<open>neighbors.push\<close> as \<open>push\<close>.
\<close>

definition link ::
  "('n \<Rightarrow> GraphType) \<Rightarrow> ('n \<Rightarrow> nat \<Rightarrow> 'n) \<Rightarrow> 'n list \<times> console_line list \<Rightarrow> nat \<times> nat
     \<Rightarrow> 'n list \<times> console_line list" where
  "link kind push acc e =
     (case acc of (nodesOut, console) \<Rightarrow>
      case e of (from, to) \<Rightarrow>
       (case (aget nodesOut from, aget nodesOut to) of
          (Some a, Some b) \<Rightarrow>
            if kind a = VARIABLE \<and> kind a \<noteq> kind b
              then (nodesOut[from := push a to], console)
            else if kind a = FACTOR \<and> kind a \<noteq> kind b
              then (nodesOut[from := push a to], console)
            else (nodesOut, console @ [InvalidEdge from to])
        | _ \<Rightarrow> (nodesOut, console @ [InvalidEdge from to])))"

section \<open>Discrete engine (class BeliefPropagation)\<close>

text \<open>
  A potential receives the assignment array, one value index per neighbour of the factor;
  a slot that was never assigned is a hole (\<open>None\<close>).
\<close>

datatype BayesNodeInput =
    BayesVariableInput "jsnum list" "jsnum list"
  | BayesFactorInput "nat option list \<Rightarrow> jsnum"

record BayesGraphInput =
  nodes_in :: "(string \<times> BayesNodeInput) list"
  edges_in :: "(string \<times> string) list"

text \<open>
  \<open>nodes_in\<close> is \<^verbatim>\<open>Object.entries(graph.nodes)\<close>. The fields of a variable are name, id,
  neighbors, possibleValues, currentBelief, logBelief; those of a factor are name, id,
  neighbors, potential, logPotential. A neighbour is a reference to a node object.
\<close>

datatype BayesNode =
    BayesVariable string nat "nat list" "jsnum list" "jsnum list" "jsnum list"
  | BayesFactor string nat "nat list" "nat option list \<Rightarrow> jsnum" "nat option list \<Rightarrow> jsnum"

fun node_type :: "BayesNode \<Rightarrow> GraphType" where
  "node_type (BayesVariable nm i nb pv cb lb) = VARIABLE"
| "node_type (BayesFactor nm i nb pot lpot) = FACTOR"

fun name :: "BayesNode \<Rightarrow> string" where
  "name (BayesVariable nm i nb pv cb lb) = nm"
| "name (BayesFactor nm i nb pot lpot) = nm"

fun node_id :: "BayesNode \<Rightarrow> nat" where
  "node_id (BayesVariable nm i nb pv cb lb) = i"
| "node_id (BayesFactor nm i nb pot lpot) = i"

fun neighbors :: "BayesNode \<Rightarrow> nat list" where
  "neighbors (BayesVariable nm i nb pv cb lb) = nb"
| "neighbors (BayesFactor nm i nb pot lpot) = nb"

fun push_neighbor :: "BayesNode \<Rightarrow> nat \<Rightarrow> BayesNode" where
  "push_neighbor (BayesVariable nm i nb pv cb lb) t = BayesVariable nm i (nb @ [t]) pv cb lb"
| "push_neighbor (BayesFactor nm i nb pot lpot) t = BayesFactor nm i (nb @ [t]) pot lpot"

text \<open>
  Fields that only a variable has; on a factor they are \<^verbatim>\<open>undefined\<close>.
\<close>

fun possibleValues :: "BayesNode \<Rightarrow> jsnum list option" where
  "possibleValues (BayesVariable nm i nb pv cb lb) = Some pv"
| "possibleValues (BayesFactor nm i nb pot lpot) = None"

fun currentBelief :: "BayesNode \<Rightarrow> jsnum list option" where
  "currentBelief (BayesVariable nm i nb pv cb lb) = Some cb"
| "currentBelief (BayesFactor nm i nb pot lpot) = None"

fun logBelief :: "BayesNode \<Rightarrow> jsnum list option" where
  "logBelief (BayesVariable nm i nb pv cb lb) = Some lb"
| "logBelief (BayesFactor nm i nb pot lpot) = None"

fun logPotential :: "BayesNode \<Rightarrow> (nat option list \<Rightarrow> jsnum) option" where
  "logPotential (BayesVariable nm i nb pv cb lb) = None"
| "logPotential (BayesFactor nm i nb pot lpot) = Some lpot"

record BeliefPropagation =
  graph_nodes :: "BayesNode list"
  graph_edges :: "(nat \<times> nat) list"
  messages :: "jsnum list list list"
  nextMessages :: "jsnum list list list"
  variableMarginals :: "jsnum list list"
  dampingFactor :: jsnum
  evidence :: "nat \<rightharpoonup> jsnum"

definition processGraph ::
  "BayesGraphInput \<Rightarrow> (BayesNode list \<times> (nat \<times> nat) list) \<times> console_line list" where
  "processGraph graph =
     (let nodes = map (\<lambda>((nodeId, node), i).
                    (nodeId,
                     case node of
                       BayesVariableInput pv cb \<Rightarrow> BayesVariable nodeId i [] pv cb []
                     | BayesFactorInput pot \<Rightarrow>
                         BayesFactor nodeId i [] pot
                           (\<lambda>values. let p = pot values in
                                       if jgt p (Fin 0) then jlog p else LOG_EPSILON)))
                  (zip (nodes_in graph) [0..<length (nodes_in graph)]);
          edges = resolve_edges node_id nodes (edges_in graph);
          nodesOut = map snd nodes;
          linked = foldl (link node_type push_neighbor) (nodesOut, []) edges
      in ((fst linked, edges), snd linked))"

text \<open>The two loops of \<^verbatim>\<open>initializeMessages\<close>.\<close>

definition init_node :: "nat \<Rightarrow> BeliefPropagation \<Rightarrow> BeliefPropagation outcome" where
  "init_node k s =
     (case aget (graph_nodes s) k of
        Some (BayesVariable nm i nb pv cb lb) \<Rightarrow>
          let size = length pv;
              uniformProb = jdiv (Fin 1) (Fin (real size))
          in Done (s\<lparr> variableMarginals := aset [] (variableMarginals s) i (replicate size uniformProb),
                      graph_nodes := (graph_nodes s)[k :=
                        BayesVariable nm i nb pv (replicate size uniformProb)
                          (replicate size (jlog uniformProb))] \<rparr>)
      | _ \<Rightarrow> Done s)"

definition init_edge :: "nat \<times> nat \<Rightarrow> BeliefPropagation \<Rightarrow> BeliefPropagation outcome" where
  "init_edge e s =
     (case e of (from, to) \<Rightarrow>
        run s (case aget (graph_nodes s) to of
                 Some (BayesVariable nm i nb pv cb lb) \<Rightarrow>
                   bindE (defined (aget (variableMarginals s) to))
                     (\<lambda>m. set_cell [] (messages s) from to m)
               | _ \<Rightarrow> set_cell [] (messages s) from to [Fin 1])
          (\<lambda>m. Done (s\<lparr> messages := m \<rparr>)))"

definition initializeMessages :: "BeliefPropagation \<Rightarrow> BeliefPropagation outcome" where
  "initializeMessages s0 =
     (let n = length (graph_nodes s0);
          s = s0\<lparr> messages := replicate n (replicate n []),
                  nextMessages := replicate n (replicate n []),
                  variableMarginals := replicate n [] \<rparr>
      in andThen (forEach [0..<n] init_node s) (forEach (graph_edges s) init_edge))"

text \<open>
  The constructor: \<^verbatim>\<open>options.damping || 0\<close>, where \<open>None\<close> is an absent option. It returns
  the new engine and what \<^verbatim>\<open>processGraph\<close> wrote to the console.
\<close>

definition BeliefPropagation_new ::
  "BayesGraphInput \<Rightarrow> jsnum option \<Rightarrow> BeliefPropagation outcome \<times> console_line list" where
  "BeliefPropagation_new graph damping =
     (let g = processGraph graph
      in (initializeMessages
            \<lparr> graph_nodes = fst (fst g), graph_edges = snd (fst g), messages = [],
              nextMessages = [], variableMarginals = [],
              dampingFactor = jor damping (Fin 0), evidence = Map.empty \<rparr>,
          snd g))"

text \<open>
  \<^verbatim>\<open>values[j] = x\<close> on the assignment array, where \<open>j\<close> is the result of \<^verbatim>\<open>indexOf\<close>: for
  \<^verbatim>\<open>-1\<close> the assignment creates a property that is not an element and the array is unchanged.
\<close>

definition assign :: "nat option list \<Rightarrow> nat option \<Rightarrow> nat \<Rightarrow> nat option list" where
  "assign values j x = (case j of None \<Rightarrow> values | Some k \<Rightarrow> aset None values k (Some x))"

definition updateVariableToFactorMessage ::
  "nat \<Rightarrow> nat \<Rightarrow> BeliefPropagation \<Rightarrow> BeliefPropagation outcome" where
  "updateVariableToFactorMessage variable factor s =
     run s
       (bindE (deref (graph_nodes s) variable) (\<lambda>v.
        bindE (deref (graph_nodes s) factor) (\<lambda>f.
        if evidence s variable \<noteq> None then
          bindE (cell (messages s) (node_id v) (node_id f)) (\<lambda>m.
          bindE (defined m) (\<lambda>m.
          set_cell [] (nextMessages s) (node_id v) (node_id f) m))
        else
          let marginal = aget (variableMarginals s) (node_id v) in
          bindE (cell (messages s) (node_id f) (node_id v)) (\<lambda>factorMessage.
          bindE (defined marginal) (\<lambda>marginal.
          bindE (mapE (\<lambda>(m, i).
                   bindE (defined factorMessage) (\<lambda>fm.
                   let divisor = jor (aget fm i) LOG_EPSILON in
                   Inr (jsub (jlog m) (jlog divisor))))
                 (zip marginal [0..<length marginal])) (\<lambda>logMessage.
          let message = map Math_exp logMessage in
          set_cell [] (nextMessages s) (node_id v) (node_id f) (normalize_vec message)))))))
       (\<lambda>nm. Done (s\<lparr> nextMessages := nm \<rparr>))"

definition updateFactorToVariableMessage ::
  "nat \<Rightarrow> nat \<Rightarrow> BeliefPropagation \<Rightarrow> BeliefPropagation outcome" where
  "updateFactorToVariableMessage factor variable s =
     run s
       (bindE (deref (graph_nodes s) factor) (\<lambda>f.
        bindE (deref (graph_nodes s) variable) (\<lambda>v.
        let varIndex = indexOf (neighbors f) variable;
            otherVars = filter (\<lambda>w. w \<noteq> variable) (neighbors f) in
        bindE (defined (possibleValues v)) (\<lambda>pv.
        let valIndices = [0..<length pv] in
        bindE (mapE (\<lambda>w.
                 bindE (deref (graph_nodes s) w) (\<lambda>wn.
                 let marginal = aget (variableMarginals s) (node_id wn) in
                 bindE (cell (messages s) (node_id wn) (node_id f)) (\<lambda>message.
                 bindE (defined marginal) (\<lambda>marginal.
                 mapE (\<lambda>(b, i).
                    bindE (defined message) (\<lambda>msg.
                    Inr (jsub (jlog b) (jlog (jor (aget msg i) LOG_EPSILON)))))
                  (zip marginal [0..<length marginal])))))
               otherVars) (\<lambda>logTerms.
        bindE (mapE (\<lambda>valIndex.
                 bindE (mapE (\<lambda>w.
                          bindE (deref (graph_nodes s) w) (\<lambda>wn.
                          bindE (defined (possibleValues wn)) (\<lambda>d. Inr [0..<length d])))
                        otherVars) (\<lambda>domains.
                 let valueCombinations =
                       foldl (\<lambda>acc vals. concat (map (\<lambda>combo. map (\<lambda>x. combo @ [x]) vals) acc))
                         [[]] domains in
                 bindE (mapE (\<lambda>combo.
                          let values =
                                foldl (\<lambda>values (x, i).
                                         assign values
                                           (Option.bind (aget otherVars i) (indexOf (neighbors f))) x)
                                  (assign (replicate (length (neighbors f)) None) varIndex valIndex)
                                  (zip combo [0..<length combo]) in
                          bindE (defined (logPotential f)) (\<lambda>lp.
                          bindE (foldlE (\<lambda>sum (x, i).
                                   bindE (defined (aget logTerms i)) (\<lambda>t.
                                   Inr (jadd sum (toNumber (aget t x)))))
                                 (Fin 0) (zip combo [0..<length combo])) (\<lambda>terms.
                          Inr (jadd (lp values) terms))))
                        valueCombinations) (\<lambda>logs.
                 Inr (logSumExp logs))))
               valIndices) (\<lambda>logMessages.
        let logZ = logSumExp logMessages in
        set_cell [] (nextMessages s) (node_id f) (node_id v)
          (map (\<lambda>m. Math_exp (jsub m logZ)) logMessages)))))))
       (\<lambda>nm. Done (s\<lparr> nextMessages := nm \<rparr>))"

definition updateAllMessages :: "BeliefPropagation \<Rightarrow> BeliefPropagation outcome" where
  "updateAllMessages s =
     andThen
       (forEach [0..<length (graph_nodes s)]
          (\<lambda>k s. case aget (graph_nodes s) k of
                    Some (BayesVariable nm i nb pv cb lb) \<Rightarrow>
                      forEach nb (\<lambda>factor. updateVariableToFactorMessage k factor) s
                  | _ \<Rightarrow> Done s) s)
       (\<lambda>s. andThen
          (forEach [0..<length (graph_nodes s)]
             (\<lambda>k s. case aget (graph_nodes s) k of
                       Some (BayesFactor nm i nb pot lpot) \<Rightarrow>
                         forEach nb (\<lambda>variable. updateFactorToVariableMessage k variable) s
                     | _ \<Rightarrow> Done s) s)
          (\<lambda>s. Done (s\<lparr> messages := nextMessages s, nextMessages := messages s \<rparr>)))"

text \<open>The body of the loop of \<^verbatim>\<open>updateBeliefs\<close>, for the node at position \<open>k\<close>.\<close>

definition updateBelief :: "nat \<Rightarrow> BeliefPropagation \<Rightarrow> BeliefPropagation outcome" where
  "updateBelief k s =
     (case aget (graph_nodes s) k of
        Some (BayesVariable nm i nb pv cb lb) \<Rightarrow>
          if evidence s k \<noteq> None then Done s
          else
            run s
              (mapE (\<lambda>idx.
                 bindE (mapE (\<lambda>neighbor.
                          bindE (deref (graph_nodes s) neighbor) (\<lambda>n.
                          bindE (cell (messages s) (node_id n) i) (\<lambda>m.
                          bindE (defined m) (\<lambda>m.
                          Inr (jlog (jor (aget m idx) (Fin 1)))))))
                        nb) (\<lambda>logs.
                 Inr (Math_exp (jsum logs))))
               [0..<length pv])
              (\<lambda>newMarginal.
                 let belief = dampMessage (normalize_vec newMarginal) cb (dampingFactor s) in
                 Done (s\<lparr> graph_nodes := (graph_nodes s)[k :=
                             BayesVariable nm i nb pv belief (map jlog belief)],
                           variableMarginals := aset [] (variableMarginals s) i belief \<rparr>))
      | _ \<Rightarrow> Done s)"

definition updateBeliefs :: "BeliefPropagation \<Rightarrow> BeliefPropagation outcome" where
  "updateBeliefs s = forEach [0..<length (graph_nodes s)] updateBelief s"

text \<open>
  The convergence measure of \<^verbatim>\<open>runIterations\<close>: the \<^verbatim>\<open>reduce\<close> over the variables, against
  the beliefs saved before the sweep.
\<close>

definition maxDiff_of :: "jsnum list list \<Rightarrow> BayesNode list \<Rightarrow> error + jsnum" where
  "maxDiff_of oldBeliefs nodes =
     foldlE (\<lambda>maxDiff (belief, index).
               bindE (mapE (\<lambda>(b, i).
                        bindE (defined (aget oldBeliefs index)) (\<lambda>old.
                        Inr (jabs (jsub b (toNumber (aget old i))))))
                      (zip belief [0..<length belief])) (\<lambda>diffs.
               Inr (jmax2 maxDiff (Math_max diffs))))
       (Fin 0)
       (zip (List.map_filter currentBelief nodes)
            [0..<length (List.map_filter currentBelief nodes)])"

text \<open>
  The loop of \<^verbatim>\<open>runIterations\<close>, with \<open>r\<close> iterations left and loop counter \<open>i\<close>. The result
  is the outcome (the method returns \<^verbatim>\<open>void\<close>) and the lines written to the console.
\<close>

fun iterations ::
  "nat \<Rightarrow> nat \<Rightarrow> nat \<Rightarrow> jsnum \<Rightarrow> BeliefPropagation
     \<Rightarrow> BeliefPropagation outcome \<times> console_line list" where
  "iterations 0 i maxIterations tolerance s = (Done s, [DidNotConvergeAfter maxIterations])"
| "iterations (Suc r) i maxIterations tolerance s =
     (let oldBeliefs = List.map_filter currentBelief (graph_nodes s) in
      case andThen (updateAllMessages s) updateBeliefs of
        Threw e s' \<Rightarrow> (Threw e s', [])
      | Done s' \<Rightarrow>
          (case maxDiff_of oldBeliefs (graph_nodes s') of
             Inl e \<Rightarrow> (Threw e s', [])
           | Inr maxDiff \<Rightarrow>
               if jlt maxDiff tolerance then (Done s', [ConvergedAfter (i + 1)])
               else iterations r (i + 1) maxIterations tolerance s'))"

text \<open>\<open>None\<close> for the tolerance is the omitted argument, with default \<^verbatim>\<open>1e-6\<close>.\<close>

definition runIterations ::
  "BeliefPropagation \<Rightarrow> nat \<Rightarrow> jsnum option
     \<Rightarrow> BeliefPropagation outcome \<times> console_line list" where
  "runIterations s maxIterations tolerance =
     iterations maxIterations 0 maxIterations
       (case tolerance of None \<Rightarrow> Fin (1 / 10 ^ 6) | Some t \<Rightarrow> t) s"

definition setEvidence :: "BeliefPropagation \<Rightarrow> string \<Rightarrow> jsnum \<Rightarrow> BeliefPropagation outcome" where
  "setEvidence s nodeId val =
     (case findIndex (\<lambda>n. name n = nodeId) (graph_nodes s) of
        None \<Rightarrow> Done s
      | Some k \<Rightarrow>
         (case aget (graph_nodes s) k of
            Some (BayesVariable nm i nb pv cb lb) \<Rightarrow>
              let belief = map (\<lambda>v. if jeq v val then Fin 1 else Fin 0) pv;
                  s1 = s\<lparr> evidence := (evidence s)(k \<mapsto> val),
                          graph_nodes := (graph_nodes s)[k :=
                            BayesVariable nm i nb pv belief
                              (map (\<lambda>v. if jeq v (Fin 1) then Fin 0 else NegInf) belief)],
                          variableMarginals := aset [] (variableMarginals s) i belief \<rparr>
              in forEach nb
                   (\<lambda>factor s.
                      run s (bindE (deref (graph_nodes s) factor) (\<lambda>f.
                             set_cell [] (messages s) i (node_id f) belief))
                        (\<lambda>m. let s' = s\<lparr> messages := m \<rparr> in
                          run s' (bindE (deref (graph_nodes s') factor) (\<lambda>f.
                                  set_cell [] (nextMessages s') i (node_id f) belief))
                            (\<lambda>nm. Done (s'\<lparr> nextMessages := nm \<rparr>))))
                   s1
          | _ \<Rightarrow> Done s))"

definition getBeliefs :: "BeliefPropagation \<Rightarrow> string \<Rightarrow> error + jsnum list" where
  "getBeliefs s nodeId =
     (case find (\<lambda>n. name n = nodeId) (graph_nodes s) of
        Some (BayesVariable nm i nb pv cb lb) \<Rightarrow> Inr cb
      | _ \<Rightarrow> Inl (Error (''Cannot get beliefs from non-variable node: '' @ nodeId)))"

definition getLogBeliefs :: "BeliefPropagation \<Rightarrow> string \<Rightarrow> error + jsnum list" where
  "getLogBeliefs s nodeId =
     (case find (\<lambda>n. name n = nodeId) (graph_nodes s) of
        Some (BayesVariable nm i nb pv cb lb) \<Rightarrow> Inr lb
      | _ \<Rightarrow> Inl (Error (''Cannot get beliefs from non-variable node: '' @ nodeId)))"

section \<open>The linear-algebra library used by the Gaussian engine\<close>

text \<open>
  Modelled from the spec: the matrix library (\<^verbatim>\<open>matrix\<close>, \<^verbatim>\<open>multiply\<close>, \<^verbatim>\<open>get\<close> of mathjs) is an
  external collaborator of which the engine uses matrix-vector multiplication and element
  access. A matrix is the list of its rows. The product of a matrix with a vector needs a
  rectangular, non-empty matrix whose rows are as long as the vector, and an element access
  needs an index inside the matrix; otherwise the library throws.
\<close>

definition multiply :: "jsnum list list \<Rightarrow> jsnum list \<Rightarrow> error + jsnum list" where
  "multiply A v =
     (if A \<noteq> [] \<and> v \<noteq> [] \<and> (\<forall>r \<in> set A. length r = length v)
      then Inr (map (\<lambda>r. jsum (map (\<lambda>(a, b). jmul a b) (zip r v))) A)
      else Inl DimensionError)"

definition get2 :: "jsnum list list \<Rightarrow> nat option \<Rightarrow> nat \<Rightarrow> error + jsnum" where
  "get2 A i j =
     (case i of
        None \<Rightarrow> Inl RangeError
      | Some i \<Rightarrow> if i < length A \<and> j < length (A ! i) then Inr (A ! i ! j) else Inl RangeError)"

definition get1 :: "jsnum list \<Rightarrow> nat option \<Rightarrow> error + jsnum" where
  "get1 v i =
     (case i of
        None \<Rightarrow> Inl RangeError
      | Some i \<Rightarrow> if i < length v then Inr (v ! i) else Inl RangeError)"

section \<open>Gaussian engine (class GaussianBeliefPropagation)\<close>

text \<open>
  A variable input has mean and variance; a factor input has potentialMean and
  potentialPrecision.
\<close>

datatype GaussianNodeInput =
    GaussianVariableInput jsnum jsnum
  | GaussianFactorInput "jsnum list" "jsnum list list"

record GaussianGraphInput =
  nodes_inG :: "(string \<times> GaussianNodeInput) list"
  edges_inG :: "(string \<times> string) list"

text \<open>
  The fields of a variable are name, id, neighbors, mean, variance, currentMean,
  currentVariance; those of a factor are name, id, neighbors, potentialMean,
  potentialPrecision.
\<close>

datatype GaussianNode =
    GaussianVariable string nat "nat list" jsnum jsnum jsnum jsnum
  | GaussianFactor string nat "nat list" "jsnum list" "jsnum list list"

fun node_typeG :: "GaussianNode \<Rightarrow> GraphType" where
  "node_typeG (GaussianVariable nm i nb m v cm cv) = VARIABLE"
| "node_typeG (GaussianFactor nm i nb pm pp) = FACTOR"

fun nameG :: "GaussianNode \<Rightarrow> string" where
  "nameG (GaussianVariable nm i nb m v cm cv) = nm"
| "nameG (GaussianFactor nm i nb pm pp) = nm"

fun node_idG :: "GaussianNode \<Rightarrow> nat" where
  "node_idG (GaussianVariable nm i nb m v cm cv) = i"
| "node_idG (GaussianFactor nm i nb pm pp) = i"

fun neighborsG :: "GaussianNode \<Rightarrow> nat list" where
  "neighborsG (GaussianVariable nm i nb m v cm cv) = nb"
| "neighborsG (GaussianFactor nm i nb pm pp) = nb"

fun push_neighborG :: "GaussianNode \<Rightarrow> nat \<Rightarrow> GaussianNode" where
  "push_neighborG (GaussianVariable nm i nb m v cm cv) t =
     GaussianVariable nm i (nb @ [t]) m v cm cv"
| "push_neighborG (GaussianFactor nm i nb pm pp) t = GaussianFactor nm i (nb @ [t]) pm pp"

text \<open>The current belief \<^verbatim>\<open>(currentMean, currentVariance)\<close> of a variable.\<close>

fun beliefG :: "GaussianNode \<Rightarrow> (jsnum \<times> jsnum) option" where
  "beliefG (GaussianVariable nm i nb m v cm cv) = Some (cm, cv)"
| "beliefG (GaussianFactor nm i nb pm pp) = None"

text \<open>
  The message matrices hold numbers. A cell read beyond the end of its row is
  \<^verbatim>\<open>undefined\<close>; every use of a cell is arithmetic, a comparison or \<^verbatim>\<open>isNaN\<close>, where
  \<^verbatim>\<open>undefined\<close> behaves as \<^verbatim>\<open>NaN\<close>, so \<open>num_cell\<close> reads it as \<^verbatim>\<open>NaN\<close>.
\<close>

definition num_cell :: "jsnum list list \<Rightarrow> nat \<Rightarrow> nat \<Rightarrow> error + jsnum" where
  "num_cell m a b = bindE (cell m a b) (\<lambda>x. Inr (toNumber x))"

record GaussianBeliefPropagation =
  graph_nodesG :: "GaussianNode list"
  graph_edgesG :: "(nat \<times> nat) list"
  messages_mean :: "jsnum list list"
  messages_precision :: "jsnum list list"
  nextMessages_mean :: "jsnum list list"
  nextMessages_precision :: "jsnum list list"
  dampingFactorG :: jsnum
  evidenceG :: "nat \<rightharpoonup> jsnum \<times> jsnum"

definition processGraphG ::
  "GaussianGraphInput \<Rightarrow> (GaussianNode list \<times> (nat \<times> nat) list) \<times> console_line list" where
  "processGraphG graph =
     (let nodes = map (\<lambda>((nodeId, node), i).
                    (nodeId,
                     case node of
                       GaussianVariableInput m v \<Rightarrow> GaussianVariable nodeId i [] m v m v
                     | GaussianFactorInput pm pp \<Rightarrow> GaussianFactor nodeId i [] pm pp))
                  (zip (nodes_inG graph) [0..<length (nodes_inG graph)]);
          edges = resolve_edges node_idG nodes (edges_inG graph);
          nodesOut = map snd nodes;
          linked = foldl (link node_typeG push_neighborG) (nodesOut, []) edges
      in ((fst linked, edges), snd linked))"

definition init_nodeG ::
  "nat \<Rightarrow> GaussianBeliefPropagation \<Rightarrow> GaussianBeliefPropagation outcome" where
  "init_nodeG k s =
     (case aget (graph_nodesG s) k of
        Some (GaussianVariable nm i nb m v cm cv) \<Rightarrow>
          forEach nb
            (\<lambda>factor s.
               run s (bindE (deref (graph_nodesG s) factor) (\<lambda>f.
                      set_cell NaN (messages_mean s) i (node_idG f) m))
                 (\<lambda>mm. let s' = s\<lparr> messages_mean := mm \<rparr> in
                   run s' (bindE (deref (graph_nodesG s') factor) (\<lambda>f.
                           set_cell NaN (messages_precision s') i (node_idG f)
                             (jdiv (Fin 1) v)))
                     (\<lambda>mp. Done (s'\<lparr> messages_precision := mp \<rparr>))))
            s
      | _ \<Rightarrow> Done s)"

definition initializeMessagesG ::
  "GaussianBeliefPropagation \<Rightarrow> GaussianBeliefPropagation outcome" where
  "initializeMessagesG s0 =
     (let nodeCount = length (graph_nodesG s0);
          s = s0\<lparr> messages_mean := replicate nodeCount (replicate nodeCount (Fin 0)),
                  messages_precision := replicate nodeCount (replicate nodeCount (Fin 0)),
                  nextMessages_mean := replicate nodeCount (replicate nodeCount (Fin 0)),
                  nextMessages_precision := replicate nodeCount (replicate nodeCount (Fin 0)) \<rparr>
      in forEach [0..<nodeCount] init_nodeG s)"

definition GaussianBeliefPropagation_new ::
  "GaussianGraphInput \<Rightarrow> jsnum option
     \<Rightarrow> GaussianBeliefPropagation outcome \<times> console_line list" where
  "GaussianBeliefPropagation_new graph damping =
     (let g = processGraphG graph
      in (initializeMessagesG
            \<lparr> graph_nodesG = fst (fst g), graph_edgesG = snd (fst g), messages_mean = [],
              messages_precision = [], nextMessages_mean = [], nextMessages_precision = [],
              dampingFactorG = jor damping (Fin 0), evidenceG = Map.empty \<rparr>,
          snd g))"

text \<open>
  \<^verbatim>\<open>xs.reduce((p, c) => p + c)\<close> without an initial value: a \<^verbatim>\<open>TypeError\<close> on the empty
  array.
\<close>

definition reduce_sum :: "jsnum list \<Rightarrow> error + jsnum" where
  "reduce_sum xs = (case xs of [] \<Rightarrow> Inl TypeError | x # rest \<Rightarrow> Inr (foldl jadd x rest))"

definition updateVariableToFactorMessageG ::
  "nat \<Rightarrow> nat \<Rightarrow> GaussianBeliefPropagation \<Rightarrow> GaussianBeliefPropagation outcome" where
  "updateVariableToFactorMessageG variable factor s =
     run s (bindE (deref (graph_nodesG s) variable) (\<lambda>v.
            bindE (deref (graph_nodesG s) factor) (\<lambda>f. Inr (v, f))))
       (\<lambda>(v, f).
          case evidenceG s variable of
            Some (emean, evariance) \<Rightarrow>
              run s (set_cell NaN (nextMessages_mean s) (node_idG v) (node_idG f) emean)
                (\<lambda>nm. let s' = s\<lparr> nextMessages_mean := nm \<rparr> in
                  run s' (set_cell NaN (nextMessages_precision s') (node_idG v) (node_idG f)
                            (jdiv (Fin 1) evariance))
                    (\<lambda>np. Done (s'\<lparr> nextMessages_precision := np \<rparr>)))
          | None \<Rightarrow>
              run s
                (bindE (mapE (deref (graph_nodesG s)) (neighborsG v)) (\<lambda>ns.
                 let otherNeighbors = filter (\<lambda>n. node_idG n \<noteq> node_idG f) ns in
                 bindE (mapE (\<lambda>n. num_cell (messages_precision s) (node_idG n) (node_idG v))
                          otherNeighbors) (\<lambda>ps.
                 bindE (reduce_sum ps) (\<lambda>totalPrecision.
                 bindE (mapE (\<lambda>n.
                          bindE (num_cell (messages_precision s) (node_idG n) (node_idG v)) (\<lambda>p.
                          bindE (num_cell (messages_mean s) (node_idG n) (node_idG v)) (\<lambda>m.
                          Inr (jmul p m))))
                        otherNeighbors) (\<lambda>ws.
                 bindE (reduce_sum ws) (\<lambda>weightedMean.
                 Inr (totalPrecision, weightedMean)))))))
                (\<lambda>(totalPrecision, weightedMean).
                   run s (set_cell NaN (nextMessages_precision s) (node_idG v) (node_idG f)
                            totalPrecision)
                     (\<lambda>np. let s' = s\<lparr> nextMessages_precision := np \<rparr> in
                       run s' (set_cell NaN (nextMessages_mean s') (node_idG v) (node_idG f)
                                 (if jgt totalPrecision (Fin 0)
                                  then jdiv weightedMean totalPrecision else Fin 0))
                         (\<lambda>nm. Done (s'\<lparr> nextMessages_mean := nm \<rparr>)))))"

text \<open>
  The loop of \<^verbatim>\<open>updateFactorToVariableMessage\<close> that accumulates \<^verbatim>\<open>precSum\<close>, from index \<open>j\<close>
  on, over the neighbours \<open>ns\<close> that are left.
\<close>

fun precSum_loop ::
  "GaussianBeliefPropagation \<Rightarrow> jsnum list list \<Rightarrow> nat option \<Rightarrow> nat \<Rightarrow> nat \<Rightarrow> GaussianNode list
     \<Rightarrow> jsnum \<Rightarrow> error + jsnum" where
  "precSum_loop s Lambda idx fid j [] precSum = Inr precSum"
| "precSum_loop s Lambda idx fid j (n # ns) precSum =
     (if Some j = idx then precSum_loop s Lambda idx fid (j + 1) ns precSum
      else bindE (get2 Lambda idx j) (\<lambda>l.
           bindE (num_cell (messages_mean s) (node_idG n) fid) (\<lambda>m.
           precSum_loop s Lambda idx fid (j + 1) ns (jadd precSum (jmul l m)))))"

text \<open>Fields that only a factor has; on a variable they are \<^verbatim>\<open>undefined\<close>.\<close>

fun potentialMean :: "GaussianNode \<Rightarrow> jsnum list option" where
  "potentialMean (GaussianVariable nm i nb m v cm cv) = None"
| "potentialMean (GaussianFactor nm i nb pm pp) = Some pm"

fun potentialPrecision :: "GaussianNode \<Rightarrow> jsnum list list option" where
  "potentialPrecision (GaussianVariable nm i nb m v cm cv) = None"
| "potentialPrecision (GaussianFactor nm i nb pm pp) = Some pp"

definition updateFactorToVariableMessageG ::
  "nat \<Rightarrow> nat \<Rightarrow> GaussianBeliefPropagation \<Rightarrow> GaussianBeliefPropagation outcome" where
  "updateFactorToVariableMessageG factor variable s =
     run s
       (bindE (deref (graph_nodesG s) factor) (\<lambda>f.
        bindE (deref (graph_nodesG s) variable) (\<lambda>v.
        bindE (mapE (deref (graph_nodesG s)) (neighborsG f)) (\<lambda>ns.
        let idx = findIndex (\<lambda>v'. node_idG v' = node_idG v) ns in
        bindE (defined (potentialPrecision f)) (\<lambda>Lambda.
        bindE (defined (potentialMean f)) (\<lambda>pm.
        bindE (multiply Lambda pm) (\<lambda>eta.
        bindE (precSum_loop s Lambda idx (node_idG f) 0 ns (Fin 0)) (\<lambda>precSum.
        bindE (get2 Lambda idx (case idx of None \<Rightarrow> 0 | Some i \<Rightarrow> i)) (\<lambda>precision.
        bindE (get1 eta idx) (\<lambda>e.
        let meanNumerator = jsub e precSum in
        Inr (node_idG f, node_idG v, precision, meanNumerator)))))))))))
       (\<lambda>(fid, vid, precision, meanNumerator).
          run s (set_cell NaN (nextMessages_precision s) fid vid precision)
            (\<lambda>np. let s' = s\<lparr> nextMessages_precision := np \<rparr> in
              run s' (set_cell NaN (nextMessages_mean s') fid vid
                        (if jgt precision (Fin 0) then jdiv meanNumerator precision else Fin 0))
                (\<lambda>nm. Done (s'\<lparr> nextMessages_mean := nm \<rparr>))))"

text \<open>The body of the damping loop of \<^verbatim>\<open>updateAllMessages\<close>, for the entry \<open>(i, j)\<close>.\<close>

definition damp_entry ::
  "nat \<Rightarrow> nat \<Rightarrow> GaussianBeliefPropagation \<Rightarrow> GaussianBeliefPropagation outcome" where
  "damp_entry i j s =
     run s (num_cell (nextMessages_mean s) i j)
       (\<lambda>new_mean.
          if \<not> isNaN new_mean then
            run s (bindE (num_cell (messages_mean s) i j) (\<lambda>old_mean.
                   set_cell NaN (nextMessages_mean s) i j
                     (jadd (jmul (dampingFactorG s) old_mean)
                           (jmul (jsub (Fin 1) (dampingFactorG s)) new_mean))))
              (\<lambda>nm. let s' = s\<lparr> nextMessages_mean := nm \<rparr> in
                run s' (bindE (num_cell (messages_precision s') i j) (\<lambda>old_precision.
                        bindE (num_cell (nextMessages_precision s') i j) (\<lambda>new_precision.
                        set_cell NaN (nextMessages_precision s') i j
                          (jadd (jmul (dampingFactorG s') old_precision)
                                (jmul (jsub (Fin 1) (dampingFactorG s')) new_precision)))))
                  (\<lambda>np. Done (s'\<lparr> nextMessages_precision := np \<rparr>)))
          else Done s)"

definition updateAllMessagesG ::
  "GaussianBeliefPropagation \<Rightarrow> GaussianBeliefPropagation outcome" where
  "updateAllMessagesG s =
     andThen
       (forEach [0..<length (graph_nodesG s)]
          (\<lambda>k s. case aget (graph_nodesG s) k of
                    Some (GaussianVariable nm i nb m v cm cv) \<Rightarrow>
                      forEach nb (\<lambda>factor. updateVariableToFactorMessageG k factor) s
                  | _ \<Rightarrow> Done s) s)
       (\<lambda>s. andThen
          (forEach [0..<length (graph_nodesG s)]
             (\<lambda>k s. case aget (graph_nodesG s) k of
                       Some (GaussianFactor nm i nb pm pp) \<Rightarrow>
                         forEach nb (\<lambda>variable. updateFactorToVariableMessageG k variable) s
                     | _ \<Rightarrow> Done s) s)
          (\<lambda>s. andThen
             (forEach [0..<length (graph_nodesG s)]
                (\<lambda>i. forEach [0..<length (graph_nodesG s)] (\<lambda>j. damp_entry i j)) s)
             (\<lambda>s. Done (s\<lparr> messages_mean := nextMessages_mean s,
                            messages_precision := nextMessages_precision s,
                            nextMessages_mean := messages_mean s,
                            nextMessages_precision := messages_precision s \<rparr>))))"

text \<open>The body of the loop of \<^verbatim>\<open>updateBeliefs\<close>, for the node at position \<open>k\<close>.\<close>

definition updateBeliefG ::
  "nat \<Rightarrow> GaussianBeliefPropagation \<Rightarrow> GaussianBeliefPropagation outcome" where
  "updateBeliefG k s =
     (case aget (graph_nodesG s) k of
        Some (GaussianVariable nm i nb m v cm cv) \<Rightarrow>
          if evidenceG s k \<noteq> None then Done s
          else
            run s
              (foldlE (\<lambda>(totalPrecision, weightedMean) neighbor.
                         bindE (deref (graph_nodesG s) neighbor) (\<lambda>n.
                         bindE (num_cell (messages_precision s) (node_idG n) i) (\<lambda>precision.
                         bindE (num_cell (messages_mean s) (node_idG n) i) (\<lambda>mn.
                         Inr (jadd totalPrecision precision,
                              jadd weightedMean (jmul precision mn))))))
                 (Fin 0, Fin 0) nb)
              (\<lambda>(totalPrecision, weightedMean).
                 if jgt totalPrecision (Fin 0) then
                   Done (s\<lparr> graph_nodesG := (graph_nodesG s)[k :=
                     GaussianVariable nm i nb m v
                       (jdiv weightedMean (jadd totalPrecision (Fin (1 / 10 ^ 10))))
                       (jdiv (Fin 1) (jadd totalPrecision (Fin (1 / 10 ^ 10))))] \<rparr>)
                 else
                   Done (s\<lparr> graph_nodesG := (graph_nodesG s)[k :=
                     GaussianVariable nm i nb m v m v] \<rparr>))
      | _ \<Rightarrow> Done s)"

definition updateBeliefsG ::
  "GaussianBeliefPropagation \<Rightarrow> GaussianBeliefPropagation outcome" where
  "updateBeliefsG s = forEach [0..<length (graph_nodesG s)] updateBeliefG s"

definition maxDiff_ofG :: "(jsnum \<times> jsnum) list \<Rightarrow> GaussianNode list \<Rightarrow> jsnum" where
  "maxDiff_ofG old nodes =
     foldl (\<lambda>maxDiff ((cm, cv), varIndex).
              let meanDiff = jabs (jsub cm (toNumber (map_option fst (aget old varIndex))));
                  varianceDiff = jabs (jsub cv (toNumber (map_option snd (aget old varIndex))))
              in jmax2 (jmax2 maxDiff meanDiff) varianceDiff)
       (Fin 0)
       (zip (List.map_filter beliefG nodes) [0..<length (List.map_filter beliefG nodes)])"

fun iterationsG ::
  "nat \<Rightarrow> nat \<Rightarrow> nat \<Rightarrow> jsnum \<Rightarrow> GaussianBeliefPropagation
     \<Rightarrow> GaussianBeliefPropagation outcome \<times> console_line list" where
  "iterationsG 0 i maxIterations tolerance s = (Done s, [DidNotConvergeAfter maxIterations])"
| "iterationsG (Suc r) i maxIterations tolerance s =
     (let old = List.map_filter beliefG (graph_nodesG s) in
      case andThen (updateAllMessagesG s) updateBeliefsG of
        Threw e s' \<Rightarrow> (Threw e s', [])
      | Done s' \<Rightarrow>
          if jlt (maxDiff_ofG old (graph_nodesG s')) tolerance
          then (Done s', [ConvergedAfter (i + 1)])
          else iterationsG r (i + 1) maxIterations tolerance s')"

definition runIterationsG ::
  "GaussianBeliefPropagation \<Rightarrow> nat \<Rightarrow> jsnum option
     \<Rightarrow> GaussianBeliefPropagation outcome \<times> console_line list" where
  "runIterationsG s maxIterations tolerance =
     iterationsG maxIterations 0 maxIterations
       (case tolerance of None \<Rightarrow> Fin (1 / 10 ^ 6) | Some t \<Rightarrow> t) s"

definition setEvidenceG ::
  "GaussianBeliefPropagation \<Rightarrow> string \<Rightarrow> jsnum \<Rightarrow> jsnum \<Rightarrow> GaussianBeliefPropagation outcome" where
  "setEvidenceG s nodeId emean evariance =
     (case findIndex (\<lambda>n. nameG n = nodeId) (graph_nodesG s) of
        None \<Rightarrow> Done s
      | Some k \<Rightarrow>
         (case aget (graph_nodesG s) k of
            Some (GaussianVariable nm i nb m v cm cv) \<Rightarrow>
              let s1 = s\<lparr> evidenceG := (evidenceG s)(k \<mapsto> (emean, evariance)),
                          graph_nodesG := (graph_nodesG s)[k :=
                            GaussianVariable nm i nb m v emean evariance] \<rparr>
              in forEach nb
                   (\<lambda>factor s.
                      run s (deref (graph_nodesG s) factor)
                        (\<lambda>f.
                      run s (set_cell NaN (messages_mean s) i (node_idG f) emean)
                        (\<lambda>mm. let s = s\<lparr> messages_mean := mm \<rparr> in
                      run s (set_cell NaN (messages_precision s) i (node_idG f)
                               (jdiv (Fin 1) evariance))
                        (\<lambda>mp. let s = s\<lparr> messages_precision := mp \<rparr> in
                      run s (set_cell NaN (nextMessages_mean s) i (node_idG f) emean)
                        (\<lambda>nm. let s = s\<lparr> nextMessages_mean := nm \<rparr> in
                      run s (set_cell NaN (nextMessages_precision s) i (node_idG f)
                               (jdiv (Fin 1) evariance))
                        (\<lambda>np. Done (s\<lparr> nextMessages_precision := np \<rparr>)))))))
                   s1
          | _ \<Rightarrow> Done s))"

text \<open>\<^verbatim>\<open>getBeliefs\<close> returns the object \<^verbatim>\<open>{ mean, variance }\<close>, here a pair.\<close>

definition getBeliefsG :: "GaussianBeliefPropagation \<Rightarrow> string \<Rightarrow> error + jsnum \<times> jsnum" where
  "getBeliefsG s nodeId =
     (case find (\<lambda>n. nameG n = nodeId) (graph_nodesG s) of
        Some (GaussianVariable nm i nb m v cm cv) \<Rightarrow> Inr (cm, cv)
      | _ \<Rightarrow> Inl (Error (''Cannot get beliefs from non-variable node: '' @ nodeId)))"

section \<open>Example graphs\<close>

text \<open>
  Two binary variables joined by the factor \<^verbatim>\<open>([a, b]) => a === b ? 0.99 : 0.01\<close>; a single
  variable without neighbours; the Gaussian pair graph of the driver program; a single Gaussian
  variable without neighbours; a Gaussian
  variable with one unary factor, built with damping 1 and clamped to mean 5, variance 1;
  and graphs with one edge whose first end is no node name.
\<close>

definition agreement :: "nat option list \<Rightarrow> jsnum" where
  "agreement values =
     (if Option.bind (aget values 0) id = Option.bind (aget values 1) id
      then Fin (99 / 100) else Fin (1 / 100))"

definition two_variable_graph :: BayesGraphInput where
  "two_variable_graph =
     \<lparr> nodes_in = [(''A'', BayesVariableInput [Fin 0, Fin 1] [Fin (1 / 2), Fin (1 / 2)]),
                   (''B'', BayesVariableInput [Fin 0, Fin 1] [Fin (1 / 2), Fin (1 / 2)]),
                   (''AB'', BayesFactorInput agreement)],
       edges_in = [(''A'', ''AB''), (''B'', ''AB'')] \<rparr>"

definition single_variable_graph :: BayesGraphInput where
  "single_variable_graph =
     \<lparr> nodes_in = [(''A'', BayesVariableInput [Fin 0, Fin 1] [Fin (1 / 2), Fin (1 / 2)])],
       edges_in = [] \<rparr>"

definition stray_edge_graph :: BayesGraphInput where
  "stray_edge_graph =
     \<lparr> nodes_in = [(''V'', BayesVariableInput [Fin 0, Fin 1] [Fin (1 / 2), Fin (1 / 2)]),
                   (''F'', BayesFactorInput agreement)],
       edges_in = [(''toString'', ''F'')] \<rparr>"

definition pair_graphG :: GaussianGraphInput where
  "pair_graphG =
     \<lparr> nodes_inG = [(''A'', GaussianVariableInput (Fin 2) (Fin 1)),
                    (''B'', GaussianVariableInput (Fin 0) (Fin 1)),
                    (''F'', GaussianFactorInput [Fin 0, Fin 0]
                              [[Fin 1, Fin (- 1)], [Fin (- 1), Fin 1]])],
       edges_inG = [(''A'', ''F''), (''B'', ''F'')] \<rparr>"

definition stray_edge_graphG :: GaussianGraphInput where
  "stray_edge_graphG =
     \<lparr> nodes_inG = [(''V'', GaussianVariableInput (Fin 0) (Fin 1)),
                    (''F'', GaussianFactorInput [Fin 0] [[Fin 1]])],
       edges_inG = [(''toString'', ''F'')] \<rparr>"

definition lone_variable_graphG :: GaussianGraphInput where
  "lone_variable_graphG =
     \<lparr> nodes_inG = [(''x'', GaussianVariableInput (Fin 0) (Fin 1))], edges_inG = [] \<rparr>"

definition clamped_graphG :: GaussianGraphInput where
  "clamped_graphG =
     \<lparr> nodes_inG = [(''x'', GaussianVariableInput (Fin 0) (Fin 1)),
                    (''f'', GaussianFactorInput [Fin 3] [[Fin 2]])],
       edges_inG = [(''x'', ''f'')] \<rparr>"

definition clamped_engineG :: GaussianBeliefPropagation where
  "clamped_engineG =
     state_of (setEvidenceG
       (state_of (fst (GaussianBeliefPropagation_new clamped_graphG (Some (Fin 1)))))
       ''x'' (Fin 5) (Fin 1))"

text \<open>
  One binary variable with four unary factors: \<^verbatim>\<open>([v]) => v === 0 ? 1e-200 : 1\<close> twice and
  \<^verbatim>\<open>([v]) => v === 1 ? 1e-200 : 1\<close> twice.
\<close>

definition tiny :: real where
  "tiny = 1 / 10 ^ 200"

definition rare_zero :: "nat option list \<Rightarrow> jsnum" where
  "rare_zero values = (if Option.bind (aget values 0) id = Some 0 then Fin tiny else Fin 1)"

definition rare_one :: "nat option list \<Rightarrow> jsnum" where
  "rare_one values = (if Option.bind (aget values 0) id = Some 1 then Fin tiny else Fin 1)"

definition underflow_graph :: BayesGraphInput where
  "underflow_graph =
     \<lparr> nodes_in = [(''V'', BayesVariableInput [Fin 0, Fin 1] [Fin (1 / 2), Fin (1 / 2)]),
                   (''F1'', BayesFactorInput rare_zero),
                   (''F2'', BayesFactorInput rare_zero),
                   (''F3'', BayesFactorInput rare_one),
                   (''F4'', BayesFactorInput rare_one)],
       edges_in = [(''V'', ''F1''), (''V'', ''F2''), (''V'', ''F3''), (''V'', ''F4'')] \<rparr>"

section \<open>Predicates used in the statements\<close>

text \<open>A finite number.\<close>

fun is_fin :: "jsnum \<Rightarrow> bool" where
  "is_fin (Fin a) = True"
| "is_fin PosInf = False"
| "is_fin NegInf = False"
| "is_fin NaN = False"


definition sweep :: "BeliefPropagation \<Rightarrow> BeliefPropagation outcome" where
  "sweep s = andThen (updateAllMessages s) updateBeliefs"


definition sweeps :: "BeliefPropagation \<Rightarrow> nat \<Rightarrow> BeliefPropagation" where
  "sweeps s j = ((\<lambda>s. state_of (sweep s)) ^^ j) s"

definition sweepG :: "GaussianBeliefPropagation \<Rightarrow> GaussianBeliefPropagation outcome" where
  "sweepG s = andThen (updateAllMessagesG s) updateBeliefsG"


definition sweepsG :: "GaussianBeliefPropagation \<Rightarrow> nat \<Rightarrow> GaussianBeliefPropagation" where
  "sweepsG s j = ((\<lambda>s. state_of (sweepG s)) ^^ j) s"

text \<open>
  The calls a caller makes on an engine, \<open>runIterations\<close> with its budget and tolerance and
  \<open>setEvidence\<close> with its arguments, the engine after a sequence of them, and whether a call
  is \<open>setEvidence\<close> on a given name.
\<close>

datatype call = Run nat "jsnum option" | Observe string jsnum

fun calls :: "BeliefPropagation \<Rightarrow> call list \<Rightarrow> BeliefPropagation" where
  "calls s [] = s"
| "calls s (Run maxIterations tolerance # cs) =
     calls (state_of (fst (runIterations s maxIterations tolerance))) cs"
| "calls s (Observe nodeId val # cs) = calls (state_of (setEvidence s nodeId val)) cs"

fun observes :: "string \<Rightarrow> call \<Rightarrow> bool" where
  "observes x (Run maxIterations tolerance) = False"
| "observes x (Observe nodeId val) = (nodeId = x)"

datatype callG = RunG nat "jsnum option" | ObserveG string jsnum jsnum

fun callsG :: "GaussianBeliefPropagation \<Rightarrow> callG list \<Rightarrow> GaussianBeliefPropagation" where
  "callsG s [] = s"
| "callsG s (RunG maxIterations tolerance # cs) =
     callsG (state_of (fst (runIterationsG s maxIterations tolerance))) cs"
| "callsG s (ObserveG nodeId emean evariance # cs) =
     callsG (state_of (setEvidenceG s nodeId emean evariance)) cs"

fun observesG :: "string \<Rightarrow> callG \<Rightarrow> bool" where
  "observesG x (RunG maxIterations tolerance) = False"
| "observesG x (ObserveG nodeId emean evariance) = (nodeId = x)"

text \<open>
  What a sweep leaves alone: the evidence map, the names of the nodes, and every node that
  has evidence.
\<close>

definition frame :: "BeliefPropagation \<Rightarrow> BeliefPropagation \<Rightarrow> bool" where
  "frame s s' \<longleftrightarrow>
     evidence s' = evidence s \<and> map name (graph_nodes s') = map name (graph_nodes s) \<and>
     (\<forall>k. evidence s k \<noteq> None \<longrightarrow> aget (graph_nodes s') k = aget (graph_nodes s) k)"

definition frameG :: "GaussianBeliefPropagation \<Rightarrow> GaussianBeliefPropagation \<Rightarrow> bool" where
  "frameG s s' \<longleftrightarrow>
     evidenceG s' = evidenceG s \<and> map nameG (graph_nodesG s') = map nameG (graph_nodesG s) \<and>
     (\<forall>k. evidenceG s k \<noteq> None \<longrightarrow> aget (graph_nodesG s') k = aget (graph_nodesG s) k)"

text \<open>
  The engines a caller can hold: built by the constructor, then changed by \<open>setEvidence\<close> and
  \<open>runIterations\<close> only, a call that throws leaving the engine as it was at the throw.
\<close>

inductive reachable :: "BeliefPropagation \<Rightarrow> bool" where
  new: "BeliefPropagation_new graph damping = (Done s, console) \<Longrightarrow> reachable s"
| evidence: "reachable s \<Longrightarrow> reachable (state_of (setEvidence s nodeId val))"
| iterate: "reachable s \<Longrightarrow> reachable (state_of (fst (runIterations s maxIterations tolerance)))"

text \<open>The log-belief of a variable is the logarithm of its belief, entry by entry.\<close>

fun log_node :: "BayesNode \<Rightarrow> bool" where
  "log_node (BayesVariable nm i nb pv cb lb) = (lb = map jlog cb)"
| "log_node (BayesFactor nm i nb pot lpot) = True"

definition log_ok :: "BeliefPropagation \<Rightarrow> bool" where
  "log_ok s = (\<forall>n \<in> set (graph_nodes s). log_node n)"

section \<open>Evaluation on concrete graphs\<close>

lemmas eval_simps = processGraph_def resolve_edges_def has_property_def id_or_0_def link_def
  aget_def aset_def Let_def initializeMessages_def init_node_def init_edge_def
  set_cell_def defined_def deref_def cell_def upt_rec object_prototype_keys_def
  processGraphG_def initializeMessagesG_def init_nodeG_def

lemmas sweep_steps = updateAllMessages_def updateBeliefs_def updateBelief_def
  updateVariableToFactorMessage_def updateFactorToVariableMessage_def maxDiff_of_def
  runIterations_def dampMessage_def normalize_vec_def jsum_def jsub_def Math_max_def
  List.map_filter_def BeliefPropagation_new_def

lemmas sweep_simps = sweep_steps Math_exp_def

lemmas sweep_simpsG = updateAllMessagesG_def updateBeliefsG_def updateBeliefG_def
  updateVariableToFactorMessageG_def updateFactorToVariableMessageG_def maxDiff_ofG_def
  runIterationsG_def jsum_def jsub_def jgt_def isNaN_def num_cell_def damp_entry_def
  multiply_def get1_def get2_def reduce_sum_def setEvidenceG_def
  List.map_filter_def GaussianBeliefPropagation_new_def

section \<open>Exceptions and loops\<close>

lemma state_of_run: "state_of (run s r k) = (case r of Inl e \<Rightarrow> s | Inr v \<Rightarrow> state_of (k v))"
  by (cases r) simp_all

lemma state_of_andThen:
  "state_of (andThen r f) = (case r of Done s \<Rightarrow> state_of (f s) | Threw e s \<Rightarrow> s)"
  by (cases r) simp_all

lemma forEach_inv:
  assumes "\<And>x s. x \<in> set xs \<Longrightarrow> P s \<Longrightarrow> P (state_of (body x s))" and "P s"
  shows "P (state_of (forEach xs body s))"
  using assms
proof (induction xs arbitrary: s)
  case Nil
  then show ?case by simp
next
  case (Cons x xs)
  have step: "P (state_of (body x s))" using Cons.prems by simp
  show ?case
  proof (cases "body x s")
    case (Done s')
    with step Cons show ?thesis by simp
  next
    case (Threw e s')
    with step show ?thesis by simp
  qed
qed

lemma andThen_inv:
  assumes "P (state_of r)" and "\<And>s. P s \<Longrightarrow> P (state_of (f s))"
  shows "P (state_of (andThen r f))"
  using assms by (cases r) simp_all

lemma aget_aset_same [simp]: "aget (aset d xs i v) i = Some v"
  by (auto simp: aget_def aset_def nth_append)

lemma num_cell_set_cell:
  "set_cell d m a b v = Inr m' \<Longrightarrow> num_cell m' a b = Inr v"
proof -
  assume a: "set_cell d m a b v = Inr m'"
  then have "a < length m" and "m' = m[a := aset d (m ! a) b v]"
    by (auto simp: set_cell_def aget_def split: if_splits)
  then have "aget m' a = Some (aset d (m ! a) b v)"
    by (simp add: aget_def)
  then show ?thesis
    by (simp add: num_cell_def cell_def)
qed

lemma set_cell_length: "set_cell d m a b v = Inr m' \<Longrightarrow> length m' = length m"
  by (auto simp: set_cell_def split: option.splits)

lemma set_cell_total: "a < length m \<Longrightarrow> \<exists>m'. set_cell d m a b v = Inr m'"
  by (simp add: set_cell_def aget_def)

lemma num_cell_total: "a < length m \<Longrightarrow> \<exists>x. num_cell m a b = Inr x"
  by (simp add: num_cell_def cell_def aget_def)

lemma forEach_rel:
  assumes refl: "\<And>s. R s s" and trans: "\<And>a b c. R a b \<Longrightarrow> R b c \<Longrightarrow> R a c"
    and step: "\<And>x s. R s (state_of (body x s))"
  shows "R s (state_of (forEach xs body s))"
proof (induction xs arbitrary: s)
  case Nil
  show ?case by (simp add: refl)
next
  case (Cons x xs)
  show ?case
  proof (cases "body x s")
    case (Done s')
    have "R s s'" using step [of s x] Done by simp
    from trans [OF this Cons.IH [of s']] Done show ?thesis by simp
  next
    case (Threw e s')
    with step [of s x] show ?thesis by simp
  qed
qed

lemma andThen_rel:
  assumes trans: "\<And>a b c. R a b \<Longrightarrow> R b c \<Longrightarrow> R a c"
    and "R s (state_of r)" and "\<And>s'. R s' (state_of (f s'))"
  shows "R s (state_of (andThen r f))"
proof (cases r)
  case (Done s')
  with assms(2) have "R s s'" by simp
  from trans [OF this assms(3) [of s']] Done show ?thesis by simp
next
  case (Threw e s')
  with assms(2) show ?thesis by simp
qed

lemma forEach_Done_Cons:
  "forEach (x # xs) body s = Done s' \<Longrightarrow> \<exists>s1. body x s = Done s1 \<and> forEach xs body s1 = Done s'"
  by (cases "body x s") simp_all

lemma forEach_Done_all:
  assumes "forEach xs body s = Done s'"
    and est: "\<And>x s s'. body x s = Done s' \<Longrightarrow> Q x s'"
    and keep: "\<And>x y s. Q x s \<Longrightarrow> Q x (state_of (body y s))"
  shows "\<forall>x \<in> set xs. Q x s'"
  using assms(1)
proof (induction xs arbitrary: s)
  case Nil
  show ?case by simp
next
  case (Cons x xs)
  from forEach_Done_Cons [OF Cons.prems]
  obtain s1 where s1: "body x s = Done s1" "forEach xs body s1 = Done s'"
    by auto
  have "Q x s1" using est [OF s1(1)] .
  then have "Q x (state_of (forEach xs body s1))"
    by (rule forEach_inv [where P = "Q x", rotated]) (rule keep)
  with s1(2) Cons.IH [OF s1(2)] show ?case by simp
qed

lemma forEach_Done_all_inv:
  assumes "forEach xs body s = Done s'" and "P s"
    and inv: "\<And>y s. P s \<Longrightarrow> P (state_of (body y s))"
    and est: "\<And>x s s'. P s \<Longrightarrow> body x s = Done s' \<Longrightarrow> Q x s'"
    and keep: "\<And>x y s. P s \<Longrightarrow> Q x s \<Longrightarrow> Q x (state_of (body y s))"
  shows "\<forall>x \<in> set xs. Q x s'"
  using assms(1,2)
proof (induction xs arbitrary: s)
  case Nil
  show ?case by simp
next
  case (Cons x xs)
  from forEach_Done_Cons [OF Cons.prems(1)]
  obtain s1 where s1: "body x s = Done s1" "forEach xs body s1 = Done s'"
    by auto
  have p1: "P s1" using inv [OF Cons.prems(2), of x] s1(1) by simp
  have "Q x s1" using est [OF Cons.prems(2) s1(1)] .
  with p1 have "P (state_of (forEach xs body s1)) \<and> Q x (state_of (forEach xs body s1))"
    by (intro forEach_inv [where P = "\<lambda>s. P s \<and> Q x s"]) (auto intro: inv keep)
  with s1(2) Cons.IH [OF s1(2) p1] show ?case by simp
qed

lemma bindE_Inr_iff: "bindE r f = Inr y \<longleftrightarrow> (\<exists>x. r = Inr x \<and> f x = Inr y)"
  by (cases r) auto

lemma defined_Inr_iff: "defined x = Inr y \<longleftrightarrow> x = Some y"
  by (cases x) (auto simp: defined_def)

lemma mapE_nth:
  "mapE f xs = Inr ys \<Longrightarrow> length ys = length xs \<and> (\<forall>i < length xs. f (xs ! i) = Inr (ys ! i))"
proof (induction xs arbitrary: ys)
  case Nil
  then show ?case by simp
next
  case (Cons x xs)
  from Cons.prems obtain y ys' where y: "f x = Inr y" "mapE f xs = Inr ys'" "ys = y # ys'"
    by (auto simp: bindE_Inr_iff)
  with Cons.IH [OF y(2)] show ?case by (auto simp: nth_Cons')
qed

section \<open>Bounds for the exponential\<close>

lemma Math_exp_0 [simp]: "Math_exp (Fin 0) = Fin 1"
  by (simp add: Math_exp_def)

lemma Math_exp_mid: "- 746 \<le> a \<Longrightarrow> a \<le> 710 \<Longrightarrow> Math_exp (Fin a) = Fin (exp a)"
  by (simp add: Math_exp_def)

lemma Math_exp_low: "a < - 746 \<Longrightarrow> Math_exp (Fin a) = Fin 0"
  by (simp add: Math_exp_def)

lemma logSumExp_single: "logSumExp [Fin x] = Fin x"
  by (simp add: logSumExp_def Math_max_def jeq_def jsub_def)

lemma logSumExp_NegInf: "logSumExp [NegInf, Fin x] = Fin x"
  by (simp add: logSumExp_def Math_max_def jeq_def jsub_def Math_exp_def)

lemma exp_1_lower: "5 / 2 \<le> exp (1::real)"
proof -
  have f: "1 + (1::real) + 1\<^sup>2 / 2 \<le> exp 1"
    by (rule exp_lower_Taylor_quadratic) simp
  have g: "1 + (1::real) + 1\<^sup>2 / 2 = 5 / 2" by simp
  from f show ?thesis unfolding g .
qed

lemma ln_10_bounds: "2 < ln (10::real)" "ln (10::real) < 3"
proof -
  have "exp (2::real) = exp 1 ^ 2" using exp_of_nat_mult [of 2 "1::real"] by simp
  also have "\<dots> \<le> 3 ^ 2" by (rule power_mono) (simp_all add: exp_le)
  finally have "exp (2::real) < exp (ln 10)" by simp
  then show "2 < ln (10::real)" by (simp only: exp_less_cancel_iff)
  have "(10::real) < (5 / 2) ^ 3" by (simp add: power3_eq_cube)
  also have "\<dots> \<le> exp 1 ^ 3" by (rule power_mono [OF exp_1_lower]) simp
  also have "\<dots> = exp (3::real)" using exp_of_nat_mult [of 3 "1::real"] by simp
  finally have "exp (ln (10::real)) < exp 3" by simp
  then show "ln (10::real) < 3" by (simp only: exp_less_cancel_iff)
qed

section \<open>Numeric utilities\<close>

lemma jmax2_NegInf_iff: "jmax2 a b = NegInf \<longleftrightarrow> a = NegInf \<and> b = NegInf"
  by (cases a; cases b) auto

lemma foldl_jmax2_NegInf_iff:
  "foldl jmax2 a vs = NegInf \<longleftrightarrow> a = NegInf \<and> (\<forall>v \<in> set vs. v = NegInf)"
  by (induction vs arbitrary: a) (auto simp: jmax2_NegInf_iff)

lemma Math_max_NegInf_iff: "Math_max vs = NegInf \<longleftrightarrow> (\<forall>v \<in> set vs. v = NegInf)"
  by (simp add: Math_max_def foldl_jmax2_NegInf_iff)

lemma foldl_jadd_map: "foldl (\<lambda>sum v. jadd sum (f v)) a vs = foldl jadd a (map f vs)"
  by (induction vs arbitrary: a) auto

text \<open>
  Claim C9. \<open>logSumExp\<close> returns \<open>LOG_EPSILON\<close>, which is \<^verbatim>\<open>1e-10\<close>, for the empty list and
  whenever the maximum of the inputs is \<^verbatim>\<open>-Infinity\<close>, which is the case exactly when every
  input is \<^verbatim>\<open>-Infinity\<close>, and the result is then not \<^verbatim>\<open>NaN\<close>; for every other list it returns
  \<^verbatim>\<open>max + log(sum(exp(v - max)))\<close>.
\<close>

theorem logSumExp_spec:
  "LOG_EPSILON = Fin (1 / 10 ^ 10) \<and>
   (vs = [] \<longrightarrow> logSumExp vs = LOG_EPSILON) \<and>
   (Math_max vs = NegInf \<longleftrightarrow> (\<forall>v \<in> set vs. v = NegInf)) \<and>
   (Math_max vs = NegInf \<longrightarrow> logSumExp vs = LOG_EPSILON \<and> logSumExp vs \<noteq> NaN) \<and>
   (vs \<noteq> [] \<and> Math_max vs \<noteq> NegInf \<longrightarrow>
      logSumExp vs =
        jadd (Math_max vs) (jlog (jsum (map (\<lambda>v. Math_exp (jsub v (Math_max vs))) vs))))"
proof -
  have "vs \<noteq> [] \<Longrightarrow> Math_max vs \<noteq> NegInf \<Longrightarrow>
      logSumExp vs =
        jadd (Math_max vs) (jlog (jsum (map (\<lambda>v. Math_exp (jsub v (Math_max vs))) vs)))"
    by (simp add: logSumExp_def Let_def jeq_def jsum_def foldl_jadd_map [symmetric])
  moreover have "Math_max vs = NegInf \<Longrightarrow> logSumExp vs = LOG_EPSILON"
    by (simp add: logSumExp_def Let_def jeq_def)
  moreover have "logSumExp [] = LOG_EPSILON"
    by (simp add: logSumExp_def)
  moreover have "LOG_EPSILON \<noteq> NaN"
    by (simp add: LOG_EPSILON_def)
  ultimately show ?thesis
    using Math_max_NegInf_iff [of vs] by (auto simp: LOG_EPSILON_def)
qed

theorem logSumExp_spec_witness:
  "logSumExp [] = LOG_EPSILON \<and> logSumExp [NegInf, NegInf] = LOG_EPSILON \<and>
   logSumExp [Fin 0, NegInf] = Fin 0"
  using logSumExp_spec [of "[]"] logSumExp_spec [of "[NegInf, NegInf]"]
    logSumExp_spec [of "[Fin 0, NegInf]"]
  by (simp add: Math_max_def jsum_def jsub_def Math_exp_def)

section \<open>Lookups by name\<close>

lemma findIndex_None: "findIndex p xs = None \<longleftrightarrow> find p xs = None"
  by (induction xs) auto

lemma findIndex_Some: "findIndex p xs = Some k \<Longrightarrow> k < length xs \<and> find p xs = Some (xs ! k)"
  by (induction xs arbitrary: k) (auto split: if_splits)

lemma findIndex_Some_aget: "findIndex p xs = Some k \<Longrightarrow> aget xs k = find p xs"
  by (auto simp: aget_def dest: findIndex_Some)

text \<open>
  Claim C7. When the name is unknown or names a factor (\<^verbatim>\<open>find\<close> returns nothing or a
  factor), \<open>getBeliefs\<close> and \<open>getLogBeliefs\<close> throw an \<^verbatim>\<open>Error\<close> whose message ends with the
  name, and \<open>setEvidence\<close> completes with the engine exactly as it was, in both engines.
\<close>

theorem lookup_errors:
  assumes "\<forall>n. find (\<lambda>n. name n = nodeId) (graph_nodes s) = Some n \<longrightarrow> node_type n = FACTOR"
    and "\<forall>n. find (\<lambda>n. nameG n = nodeIdG) (graph_nodesG g) = Some n \<longrightarrow> node_typeG n = FACTOR"
  shows "getBeliefs s nodeId = Inl (Error (''Cannot get beliefs from non-variable node: '' @ nodeId))
       \<and> getLogBeliefs s nodeId = Inl (Error (''Cannot get beliefs from non-variable node: '' @ nodeId))
       \<and> setEvidence s nodeId val = Done s
       \<and> getBeliefsG g nodeIdG = Inl (Error (''Cannot get beliefs from non-variable node: '' @ nodeIdG))
       \<and> setEvidenceG g nodeIdG emean evariance = Done g"
proof -
  have a: "getBeliefs s nodeId = Inl (Error (''Cannot get beliefs from non-variable node: '' @ nodeId))"
    using assms(1) by (auto simp: getBeliefs_def split: option.splits BayesNode.splits)
  have b: "getLogBeliefs s nodeId = Inl (Error (''Cannot get beliefs from non-variable node: '' @ nodeId))"
    using assms(1) by (auto simp: getLogBeliefs_def split: option.splits BayesNode.splits)
  have c: "setEvidence s nodeId val = Done s"
  proof (cases "findIndex (\<lambda>n. name n = nodeId) (graph_nodes s)")
    case None
    then show ?thesis by (simp add: setEvidence_def)
  next
    case (Some k)
    from findIndex_Some_aget[OF Some] assms(1) findIndex_Some[OF Some] show ?thesis
      by (auto simp: setEvidence_def Some split: option.splits BayesNode.splits)
  qed
  have d: "getBeliefsG g nodeIdG = Inl (Error (''Cannot get beliefs from non-variable node: '' @ nodeIdG))"
    using assms(2) by (auto simp: getBeliefsG_def split: option.splits GaussianNode.splits)
  have e: "setEvidenceG g nodeIdG emean evariance = Done g"
  proof (cases "findIndex (\<lambda>n. nameG n = nodeIdG) (graph_nodesG g)")
    case None
    then show ?thesis by (simp add: setEvidenceG_def)
  next
    case (Some k)
    from findIndex_Some_aget[OF Some] assms(2) findIndex_Some[OF Some] show ?thesis
      by (auto simp: setEvidenceG_def Some split: option.splits GaussianNode.splits)
  qed
  from a b c d e show ?thesis by simp
qed

theorem lookup_errors_witness:
  "getBeliefs (state_of (fst (BeliefPropagation_new two_variable_graph None))) ''AB''
     = Inl (Error ''Cannot get beliefs from non-variable node: AB'')
   \<and> getLogBeliefs (state_of (fst (BeliefPropagation_new two_variable_graph None))) ''AB''
     = Inl (Error ''Cannot get beliefs from non-variable node: AB'')
   \<and> setEvidence (state_of (fst (BeliefPropagation_new two_variable_graph None))) ''AB'' (Fin 1)
     = Done (state_of (fst (BeliefPropagation_new two_variable_graph None)))
   \<and> getBeliefsG (state_of (fst (GaussianBeliefPropagation_new pair_graphG None))) ''C''
     = Inl (Error ''Cannot get beliefs from non-variable node: C'')
   \<and> setEvidenceG (state_of (fst (GaussianBeliefPropagation_new pair_graphG None))) ''C''
       (Fin 2) (Fin 1)
     = Done (state_of (fst (GaussianBeliefPropagation_new pair_graphG None)))"
  using lookup_errors [of "''AB''"
      "state_of (fst (BeliefPropagation_new two_variable_graph None))" "''C''"
      "state_of (fst (GaussianBeliefPropagation_new pair_graphG None))" "Fin 1" "Fin 2" "Fin 1"]
  by (simp add: BeliefPropagation_new_def two_variable_graph_def
      GaussianBeliefPropagation_new_def pair_graphG_def eval_simps)

section \<open>The report of runIterations\<close>

lemma sweeps_simps [simp]:
  "sweeps s 0 = s" "sweeps s (Suc j) = sweeps (state_of (sweep s)) j"
  by (simp_all add: sweeps_def funpow_Suc_right del: funpow.simps)

lemma sweepsG_simps [simp]:
  "sweepsG g 0 = g" "sweepsG g (Suc j) = sweepsG (state_of (sweepG g)) j"
  by (simp_all add: sweepsG_def funpow_Suc_right del: funpow.simps)









section \<open>Damping\<close>

lemma jmul_one [simp]: "jmul (Fin 1) x = x"
  by (cases x) auto

lemma jmul_zero_fin [simp]: "is_fin x \<Longrightarrow> jmul (Fin 0) x = Fin 0"
  by (cases x) auto

lemma jadd_zero [simp]: "jadd x (Fin 0) = x" "jadd (Fin 0) x = x"
  by (cases x; simp)+

lemma is_fin_nth: "\<forall>x \<in> set xs. is_fin x \<Longrightarrow> i < length xs \<Longrightarrow> is_fin (xs ! i)"
  by simp

lemma dampMessage_one:
  assumes "\<forall>x \<in> set prevMsg. is_fin x" and "length newMsg \<le> length prevMsg"
  shows "dampMessage newMsg prevMsg (Fin 1) = normalize_vec newMsg"
proof -
  have "map (\<lambda>(val, idx). jadd (jmul (Fin 1) val)
              (jmul (jsub (Fin 1) (Fin 1)) (toNumber (aget prevMsg idx))))
          (zip newMsg [0..<length newMsg]) = newMsg"
  proof (rule nth_equalityI)
    fix i
    assume "i < length (map (\<lambda>(val, idx). jadd (jmul (Fin 1) val)
              (jmul (jsub (Fin 1) (Fin 1)) (toNumber (aget prevMsg idx))))
          (zip newMsg [0..<length newMsg]))"
    then have i: "i < length newMsg" by simp
    with assms have "is_fin (prevMsg ! i)" by simp
    with i assms(2) show "map (\<lambda>(val, idx). jadd (jmul (Fin 1) val)
              (jmul (jsub (Fin 1) (Fin 1)) (toNumber (aget prevMsg idx))))
          (zip newMsg [0..<length newMsg]) ! i = newMsg ! i"
      by (simp add: aget_def jsub_def)
  qed simp
  then show ?thesis by (simp add: dampMessage_def normalize_vec_def Let_def)
qed

lemma dampMessage_zero:
  assumes "\<forall>x \<in> set newMsg. is_fin x" and "length newMsg = length prevMsg"
  shows "dampMessage newMsg prevMsg (Fin 0) = normalize_vec prevMsg"
proof -
  have "map (\<lambda>(val, idx). jadd (jmul (Fin 0) val)
              (jmul (jsub (Fin 1) (Fin 0)) (toNumber (aget prevMsg idx))))
          (zip newMsg [0..<length newMsg]) = prevMsg"
  proof (rule nth_equalityI)
    fix i
    assume "i < length (map (\<lambda>(val, idx). jadd (jmul (Fin 0) val)
              (jmul (jsub (Fin 1) (Fin 0)) (toNumber (aget prevMsg idx))))
          (zip newMsg [0..<length newMsg]))"
    then have i: "i < length newMsg" by simp
    with assms have "is_fin (newMsg ! i)" by simp
    with i assms(2) show "map (\<lambda>(val, idx). jadd (jmul (Fin 0) val)
              (jmul (jsub (Fin 1) (Fin 0)) (toNumber (aget prevMsg idx))))
          (zip newMsg [0..<length newMsg]) ! i = prevMsg ! i"
      by (simp add: aget_def jsub_def)
  qed (simp add: assms(2))
  then show ?thesis by (simp add: dampMessage_def normalize_vec_def Let_def)
qed

lemma damp_entry_blend:
  assumes rows: "i < length (messages_mean s)" "i < length (messages_precision s)"
      "i < length (nextMessages_mean s)" "i < length (nextMessages_precision s)"
    and new: "num_cell (nextMessages_mean s) i j = Inr new_mean" "new_mean \<noteq> NaN"
      "num_cell (nextMessages_precision s) i j = Inr new_precision"
    and old: "num_cell (messages_mean s) i j = Inr old_mean"
      "num_cell (messages_precision s) i j = Inr old_precision"
  shows "\<exists>s'. damp_entry i j s = Done s'
     \<and> num_cell (nextMessages_mean s') i j
         = Inr (jadd (jmul (dampingFactorG s) old_mean)
                     (jmul (jsub (Fin 1) (dampingFactorG s)) new_mean))
     \<and> num_cell (nextMessages_precision s') i j
         = Inr (jadd (jmul (dampingFactorG s) old_precision)
                     (jmul (jsub (Fin 1) (dampingFactorG s)) new_precision))"
proof -
  obtain nm where nm: "set_cell NaN (nextMessages_mean s) i j
       (jadd (jmul (dampingFactorG s) old_mean)
             (jmul (jsub (Fin 1) (dampingFactorG s)) new_mean)) = Inr nm"
    using set_cell_total [OF rows(3)] by blast
  obtain np where np: "set_cell NaN (nextMessages_precision s) i j
       (jadd (jmul (dampingFactorG s) old_precision)
             (jmul (jsub (Fin 1) (dampingFactorG s)) new_precision)) = Inr np"
    using set_cell_total [OF rows(4)] by blast
  have "damp_entry i j s = Done (s\<lparr> nextMessages_mean := nm, nextMessages_precision := np \<rparr>)"
    using new old nm np by (simp add: damp_entry_def isNaN_def Let_def)
  then show ?thesis
    using num_cell_set_cell [OF nm] num_cell_set_cell [OF np] by simp
qed

lemma init_node_damping: "dampingFactor (state_of (init_node k s)) = dampingFactor s"
  by (auto simp: init_node_def Let_def split: option.splits BayesNode.splits)

lemma init_edge_damping: "dampingFactor (state_of (init_edge e s)) = dampingFactor s"
  by (auto simp: init_edge_def state_of_run split: prod.splits sum.splits)

lemma initializeMessages_damping:
  "dampingFactor (state_of (initializeMessages s)) = dampingFactor s"
  unfolding initializeMessages_def Let_def
  by (rule andThen_inv, rule forEach_inv, simp add: init_node_damping, simp,
      rule forEach_inv, simp add: init_edge_damping, simp)

lemma init_nodeG_damping: "dampingFactorG (state_of (init_nodeG k s)) = dampingFactorG s"
proof -
  have "\<And>nb. dampingFactorG (state_of (forEach nb
            (\<lambda>factor s.
               run s (bindE (deref (graph_nodesG s) factor) (\<lambda>f.
                      set_cell NaN (messages_mean s) i (node_idG f) m))
                 (\<lambda>mm. let s' = s\<lparr> messages_mean := mm \<rparr> in
                   run s' (bindE (deref (graph_nodesG s') factor) (\<lambda>f.
                           set_cell NaN (messages_precision s') i (node_idG f)
                             (jdiv (Fin 1) v)))
                     (\<lambda>mp. Done (s'\<lparr> messages_precision := mp \<rparr>))))
            s)) = dampingFactorG s" for i m v
    by (rule forEach_inv) (auto simp: state_of_run Let_def split: sum.splits)
  then show ?thesis
    by (auto simp: init_nodeG_def split: option.splits GaussianNode.splits)
qed

lemma initializeMessagesG_damping:
  "dampingFactorG (state_of (initializeMessagesG s)) = dampingFactorG s"
  unfolding initializeMessagesG_def Let_def
  by (rule forEach_inv, simp add: init_nodeG_damping, simp)

lemma default_damping:
  "dampingFactor (state_of (fst (BeliefPropagation_new graph None))) = Fin 0"
  "dampingFactorG (state_of (fst (GaussianBeliefPropagation_new graphG None))) = Fin 0"
  by (simp_all add: BeliefPropagation_new_def GaussianBeliefPropagation_new_def Let_def
      initializeMessages_damping initializeMessagesG_damping)

lemma ln_hundredth: "- 6 < ln (1 / 100 :: real)" "ln (1 / 100 :: real) < - 4"
proof -
  have a: "ln ((10::real) ^ 2) = real 2 * ln 10" by (rule ln_realpow)
  have "ln (1 / 100 :: real) = ln (1 / 10 ^ 2)" by simp
  also have "\<dots> = ln 1 - ln ((10::real) ^ 2)" by (subst ln_div) simp
  finally have "ln (1 / 100 :: real) = - (real 2 * ln 10)" by (simp only: a ln_one diff_0)
  then have "ln (1 / 100 :: real) = - (2 * ln 10)" by simp
  with ln_10_bounds show "- 6 < ln (1 / 100 :: real)" "ln (1 / 100 :: real) < - 4" by simp_all
qed

lemma ln_near_one: "- 1 < ln (99 / 100 :: real)" "ln (99 / 100 :: real) < 0"
proof -
  have "exp (- 1 :: real) = 1 / exp 1" by (simp add: exp_minus inverse_eq_divide)
  also have "\<dots> \<le> 1 / (5 / 2)" by (rule divide_left_mono [OF exp_1_lower]) simp_all
  finally have "exp (- 1 :: real) < exp (ln (99 / 100))" by simp
  then show "- 1 < ln (99 / 100 :: real)" by (simp only: exp_less_cancel_iff)
  show "ln (99 / 100 :: real) < 0" by simp
qed

lemma agreement_entries:
  "Math_exp (Fin (ln (1 / 100))) = Fin (1 / 100)"
  "Math_exp (Fin (ln (99 / 100))) = Fin (99 / 100)"
proof -
  have "- 746 \<le> ln (1 / 100 :: real)" "ln (1 / 100 :: real) \<le> 710"
    using ln_hundredth by linarith+
  then have "Math_exp (Fin (ln (1 / 100))) = Fin (exp (ln (1 / 100)))" by (rule Math_exp_mid)
  then show "Math_exp (Fin (ln (1 / 100))) = Fin (1 / 100)" by simp
  have "- 746 \<le> ln (99 / 100 :: real)" "ln (99 / 100 :: real) \<le> 710"
    using ln_near_one by linarith+
  then have "Math_exp (Fin (ln (99 / 100))) = Fin (exp (ln (99 / 100)))" by (rule Math_exp_mid)
  then show "Math_exp (Fin (ln (99 / 100))) = Fin (99 / 100)" by simp
qed

lemma agreement_logZ: "logSumExp [Fin (ln (1 / 100)), Fin (ln (99 / 100))] = Fin 0"
proof -
  have m: "max (ln (1 / 100 :: real)) (ln (99 / 100)) = ln (99 / 100)" by simp
  have d: "Math_exp (Fin (ln (1 / 100) - ln (99 / 100))) = Fin (1 / 99)"
  proof -
    have "- 746 \<le> ln (1 / 100 :: real) - ln (99 / 100)" "ln (1 / 100 :: real) - ln (99 / 100) \<le> 710"
      using ln_hundredth ln_near_one by linarith+
    then have "Math_exp (Fin (ln (1 / 100) - ln (99 / 100)))
        = Fin (exp (ln (1 / 100) - ln (99 / 100)))"
      by (rule Math_exp_mid)
    then show ?thesis by (simp add: exp_diff)
  qed
  have "ln (99 / 100 :: real) + ln (100 / 99) = ln ((99 / 100) * (100 / 99))"
    by (subst ln_mult) simp_all
  then have z: "ln (99 / 100 :: real) + ln (100 / 99) = 0" by simp
  show ?thesis
    by (simp add: logSumExp_def Math_max_def jeq_def jsub_def m d z del: ln_less_cancel_iff)
qed

lemma frozen_beliefs:
  "getBeliefs (state_of (fst (runIterations (state_of (setEvidence
       (state_of (fst (BeliefPropagation_new two_variable_graph None))) ''A'' (Fin 1)))
       (Suc m) None))) ''B'' = Inr [Fin (1 / 2), Fin (1 / 2)]
   \<and> snd (runIterations (state_of (setEvidence
       (state_of (fst (BeliefPropagation_new two_variable_graph None))) ''A'' (Fin 1)))
       (Suc m) None) = [ConvergedAfter 1]"
  by (simp add: two_variable_graph_def eval_simps sweep_steps agreement_def jgt_def
     assign_def indexOf_def getBeliefs_def setEvidence_def jeq_def LOG_EPSILON_def
     logSumExp_NegInf agreement_entries agreement_logZ)

text \<open>
  Claim C4, failing inputs. The claim asks for \<^verbatim>\<open>damping * new + (1 - damping) * old\<close> in both
  engines, with the default 0 accepting the new value. In the Gaussian engine built with
  damping 1, the sweep computes the new factor-to-variable mean 3 and stores the previous
  mean 0: it blends \<^verbatim>\<open>damping * old + (1 - damping) * new\<close>. In the discrete engine
  \<open>dampMessage\<close> with damping 0 returns the previous vector, 0 is the default of the
  constructor, and so on the graph of two binary variables joined by the agreement factor,
  built without a damping option, after \<open>setEvidence\<close> of 1 on \<open>A\<close> the call of \<open>runIterations\<close>
  with budget 100 reports convergence after one sweep and leaves the belief of \<open>B\<close> at the
  uniform vector.
\<close>

theorem damping_conventions_differ:
  "num_cell (nextMessages_mean (state_of (updateFactorToVariableMessageG 1 0 clamped_engineG))) 1 0
     = Inr (Fin 3)
   \<and> dampingFactorG clamped_engineG = Fin 1
   \<and> num_cell (messages_mean (state_of (updateAllMessagesG clamped_engineG))) 1 0 = Inr (Fin 0)
   \<and> dampMessage [Fin (1 / 4), Fin (3 / 4)] [Fin (1 / 2), Fin (1 / 2)] (Fin 0)
     = [Fin (1 / 2), Fin (1 / 2)]
   \<and> dampingFactor (state_of (fst (BeliefPropagation_new two_variable_graph None))) = Fin 0
   \<and> snd (runIterations (state_of (setEvidence
         (state_of (fst (BeliefPropagation_new two_variable_graph None))) ''A'' (Fin 1)))
         100 None) = [ConvergedAfter 1]
   \<and> getBeliefs (state_of (fst (runIterations (state_of (setEvidence
         (state_of (fst (BeliefPropagation_new two_variable_graph None))) ''A'' (Fin 1)))
         100 None))) ''B'' = Inr [Fin (1 / 2), Fin (1 / 2)]"
proof -
  have g: "num_cell (nextMessages_mean
        (state_of (updateFactorToVariableMessageG 1 0 clamped_engineG))) 1 0 = Inr (Fin 3)
      \<and> dampingFactorG clamped_engineG = Fin 1
      \<and> num_cell (messages_mean (state_of (updateAllMessagesG clamped_engineG))) 1 0
        = Inr (Fin 0)
      \<and> dampMessage [Fin (1 / 4), Fin (3 / 4)] [Fin (1 / 2), Fin (1 / 2)] (Fin 0)
        = [Fin (1 / 2), Fin (1 / 2)]"
    by (simp add: clamped_engineG_def clamped_graphG_def eval_simps sweep_simpsG dampMessage_def)
  have n: "(100::nat) = Suc 99" by simp
  from g default_damping(1) [of two_variable_graph] frozen_beliefs [of 99] show ?thesis
    unfolding n by simp
qed

section \<open>Graph normalization\<close>

text \<open>
  Claim C10, at the failing input. The edge \<^verbatim>\<open>["toString", "F"]\<close> names no node, yet
  \<^verbatim>\<open>"toString" in nodeDict\<close> holds through the prototype: the edge is kept, resolved to the
  node with id 0, expanded in both directions and linked into the neighbour lists, in both
  engines, and nothing is reported.
\<close>

theorem unknown_edge_not_dropped:
  "snd (fst (processGraph stray_edge_graph)) = [(0, 1), (1, 0)]
   \<and> map neighbors (fst (fst (processGraph stray_edge_graph))) = [[1], [0]]
   \<and> snd (processGraph stray_edge_graph) = []
   \<and> snd (fst (processGraphG stray_edge_graphG)) = [(0, 1), (1, 0)]
   \<and> map neighborsG (fst (fst (processGraphG stray_edge_graphG))) = [[1], [0]]
   \<and> snd (processGraphG stray_edge_graphG) = []"
  by (simp add: stray_edge_graph_def stray_edge_graphG_def eval_simps)

section \<open>Gaussian factor-to-variable message\<close>

lemma mapE_length: "mapE f xs = Inr ys \<Longrightarrow> length ys = length xs"
proof (induction xs arbitrary: ys)
  case Nil
  then show ?case by simp
next
  case (Cons x xs)
  then show ?case
    by (cases "f x"; cases "mapE f xs") auto
qed

lemma findIndex_less: "findIndex p xs = Some k \<Longrightarrow> k < length xs"
  by (simp add: findIndex_Some)

lemma num_cell_row:
  "a < length m \<Longrightarrow> num_cell m a b = Inr (toNumber (aget (m ! a) b))"
  by (simp add: num_cell_def cell_def aget_def)

lemma precSum_loop_eq:
  assumes "i < length Lambda" "\<forall>n \<in> set ns. node_idG n < length (messages_mean s)"
    "j + length ns \<le> length (Lambda ! i)"
  shows "precSum_loop s Lambda (Some i) fid j ns acc =
     Inr (foldl jadd acc
            (map (\<lambda>(j, n). jmul (Lambda ! i ! j)
                     (toNumber (aget (messages_mean s ! node_idG n) fid)))
               (filter (\<lambda>(j, n). j \<noteq> i) (List.enumerate j ns))))"
  using assms
proof (induction ns arbitrary: j acc)
  case Nil
  then show ?case by simp
next
  case (Cons n ns)
  have ih: "precSum_loop s Lambda (Some i) fid (Suc j) ns acc' =
     Inr (foldl jadd acc'
            (map (\<lambda>(j, n). jmul (Lambda ! i ! j)
                     (toNumber (aget (messages_mean s ! node_idG n) fid)))
               (filter (\<lambda>(j, n). j \<noteq> i) (List.enumerate (Suc j) ns))))" for acc'
    using Cons.IH [of "Suc j" acc'] Cons.prems by simp
  have row: "node_idG n < length (messages_mean s)" using Cons.prems by simp
  have col: "j < length (Lambda ! i)" using Cons.prems by simp
  show ?case
    using ih row col Cons.prems(1)
    by (auto simp: get2_def num_cell_row)
qed

text \<open>
  Claim C5. For a factor \<open>f\<close> with precision matrix \<open>Lambda\<close> and mean vector \<open>pm\<close> of the
  size of its neighbour list, and a target variable found at neighbour index \<open>i\<close>,
  \<open>updateFactorToVariableMessage\<close> completes and stores in the next generation the precision
  \<open>Lambda[i,i]\<close> and the mean \<open>(eta[i] - sum) / Lambda[i,i]\<close> if \<open>Lambda[i,i] > 0\<close>, else \<open>0\<close>,
  where \<open>eta = Lambda * pm\<close> and \<open>sum\<close> adds \<open>Lambda[i,j] * mean[j]\<close> over the other neighbours
  \<open>j\<close>, \<open>mean[j]\<close> being the current-generation message from neighbour \<open>j\<close> to \<open>f\<close>.
\<close>

theorem factor_to_variable_message:
  assumes f: "deref (graph_nodesG s) factor = Inr (GaussianFactor nm fid nb pm Lambda)"
    and v: "deref (graph_nodesG s) variable = Inr v"
    and ns: "mapE (deref (graph_nodesG s)) nb = Inr ns"
    and idx: "findIndex (\<lambda>v'. node_idG v' = node_idG v) ns = Some i"
    and dims: "length Lambda = length nb" "\<forall>r \<in> set Lambda. length r = length nb"
      "length pm = length nb"
    and rows: "\<forall>n \<in> set ns. node_idG n < length (messages_mean s)"
      "fid < length (nextMessages_precision s)" "fid < length (nextMessages_mean s)"
  shows "\<exists>s'. updateFactorToVariableMessageG factor variable s = Done s'
     \<and> num_cell (nextMessages_precision s') fid (node_idG v) = Inr (Lambda ! i ! i)
     \<and> num_cell (nextMessages_mean s') fid (node_idG v) =
         Inr (if jgt (Lambda ! i ! i) (Fin 0)
              then jdiv (jsub (map (\<lambda>r. jsum (map (\<lambda>(a, b). jmul a b) (zip r pm))) Lambda ! i)
                          (jsum (map (\<lambda>(j, n). jmul (Lambda ! i ! j)
                                      (toNumber (aget (messages_mean s ! node_idG n) fid)))
                                   (filter (\<lambda>(j, n). j \<noteq> i) (List.enumerate 0 ns)))))
                        (Lambda ! i ! i)
              else Fin 0)"
proof -
  have len: "length ns = length nb" using mapE_length [OF ns] .
  have i: "i < length nb" using findIndex_less [OF idx] len by simp
  then have ne: "Lambda \<noteq> []" "pm \<noteq> []" using dims by auto
  have iL: "i < length Lambda" using i dims by simp
  have rowi: "length (Lambda ! i) = length nb" using dims iL by simp
  let ?eta = "map (\<lambda>r. jsum (map (\<lambda>(a, b). jmul a b) (zip r pm))) Lambda"
  let ?sum = "jsum (map (\<lambda>(j, n). jmul (Lambda ! i ! j)
                 (toNumber (aget (messages_mean s ! node_idG n) fid)))
              (filter (\<lambda>(j, n). j \<noteq> i) (List.enumerate 0 ns)))"
  let ?mean = "if jgt (Lambda ! i ! i) (Fin 0)
               then jdiv (jsub (?eta ! i) ?sum) (Lambda ! i ! i) else Fin 0"
  have mult: "multiply Lambda pm = Inr ?eta"
    using ne dims by (simp add: multiply_def)
  have loop: "precSum_loop s Lambda (Some i) fid 0 ns (Fin 0) = Inr ?sum"
    using precSum_loop_eq [of i Lambda ns s 0 fid "Fin 0"] iL rows(1) rowi len
    by (simp add: jsum_def)
  have g2: "get2 Lambda (Some i) i = Inr (Lambda ! i ! i)"
    using iL rowi i by (simp add: get2_def)
  have g1: "get1 ?eta (Some i) = Inr (?eta ! i)"
    using iL by (simp add: get1_def)
  obtain np where np: "set_cell NaN (nextMessages_precision s) fid (node_idG v) (Lambda ! i ! i) = Inr np"
    using set_cell_total [OF rows(2)] by blast
  obtain nm' where nm: "set_cell NaN (nextMessages_mean s) fid (node_idG v) ?mean = Inr nm'"
    using set_cell_total [OF rows(3)] by blast
  have "updateFactorToVariableMessageG factor variable s
      = Done (s\<lparr> nextMessages_precision := np, nextMessages_mean := nm' \<rparr>)"
    unfolding updateFactorToVariableMessageG_def
    using f v ns idx mult loop g2 g1 np nm
    by (simp add: defined_def Let_def)
  then show ?thesis
    using num_cell_set_cell [OF np] num_cell_set_cell [OF nm] by simp
qed

theorem factor_to_variable_message_witness:
  "\<exists>s'. updateFactorToVariableMessageG 2 1
          (state_of (fst (GaussianBeliefPropagation_new pair_graphG None))) = Done s'
     \<and> num_cell (nextMessages_precision s') 2 1 = Inr (Fin 1)
     \<and> num_cell (nextMessages_mean s') 2 1 = Inr (Fin 2)"
  using factor_to_variable_message [where s = "state_of (fst (GaussianBeliefPropagation_new pair_graphG None))"
      and factor = 2 and variable = 1 and nm = "''F''" and fid = 2 and nb = "[0, 1]"
      and pm = "[Fin 0, Fin 0]" and Lambda = "[[Fin 1, Fin (- 1)], [Fin (- 1), Fin 1]]"
      and v = "GaussianVariable ''B'' 1 [2] (Fin 0) (Fin 1) (Fin 0) (Fin 1)"
      and ns = "[GaussianVariable ''A'' 0 [2] (Fin 2) (Fin 1) (Fin 2) (Fin 1),
                 GaussianVariable ''B'' 1 [2] (Fin 0) (Fin 1) (Fin 0) (Fin 1)]"
      and i = 1]
  by (simp add: pair_graphG_def eval_simps GaussianBeliefPropagation_new_def jsum_def jsub_def jgt_def)

section \<open>Variables with a single neighbouring factor\<close>

lemma forEach_throws:
  assumes "x \<in> set xs"
    and "\<And>y s. P s \<Longrightarrow> P (state_of (body y s))"
    and "\<And>s. P s \<Longrightarrow> threw (body x s)"
    and "P s"
  shows "threw (forEach xs body s)"
  using assms(1,4)
proof (induction xs arbitrary: s)
  case Nil
  then show ?case by simp
next
  case (Cons y ys)
  show ?case
  proof (cases "body y s")
    case (Threw e s')
    then show ?thesis by simp
  next
    case (Done s')
    with assms(3) [OF Cons.prems(2)] have "y \<noteq> x" by auto
    with Cons.prems(1) have x: "x \<in> set ys" by simp
    from assms(2) [OF Cons.prems(2), of y] Done have "P s'" by simp
    from Cons.IH [OF x this] Done show ?thesis by simp
  qed
qed

lemma mapE_set: "mapE f xs = Inr ys \<Longrightarrow> y \<in> set ys \<Longrightarrow> \<exists>x \<in> set xs. f x = Inr y"
proof (induction xs arbitrary: ys)
  case Nil
  then show ?case by simp
next
  case (Cons x xs)
  then show ?case
    by (cases "f x"; cases "mapE f xs") auto
qed

lemma v2fG_frame:
  "graph_nodesG (state_of (updateVariableToFactorMessageG k f s)) = graph_nodesG s
   \<and> evidenceG (state_of (updateVariableToFactorMessageG k f s)) = evidenceG s"
  unfolding updateVariableToFactorMessageG_def
  by (auto simp: state_of_run Let_def split: sum.splits option.splits prod.splits)

lemma v2fG_throws:
  assumes "aget (graph_nodesG s) k = Some (GaussianVariable nm i nb m v cm cv)"
    and "evidenceG s k = None" and "\<forall>p \<in> set nb. p = f"
  shows "threw (updateVariableToFactorMessageG k f s)"
proof -
  have k: "deref (graph_nodesG s) k = Inr (GaussianVariable nm i nb m v cm cv)"
    using assms(1) by (simp add: deref_def)
  show ?thesis
  proof (cases "deref (graph_nodesG s) f")
    case (Inl e)
    then show ?thesis by (simp add: updateVariableToFactorMessageG_def k)
  next
    case (Inr fn)
    show ?thesis
    proof (cases "mapE (deref (graph_nodesG s)) nb")
      case (Inl e)
      then show ?thesis
        by (simp add: updateVariableToFactorMessageG_def k Inr assms(2))
    next
      case ns: (Inr ns)
      have "\<forall>n \<in> set ns. n = fn"
      proof
        fix n assume "n \<in> set ns"
        then obtain p where "p \<in> set nb" "deref (graph_nodesG s) p = Inr n"
          using mapE_set [OF ns] by blast
        with assms(3) Inr show "n = fn" by simp
      qed
      then have "filter (\<lambda>n. node_idG n \<noteq> node_idG fn) ns = []"
        by (auto simp: filter_empty_conv)
      then show ?thesis
        by (simp add: updateVariableToFactorMessageG_def k Inr assms(2) ns reduce_sum_def)
    qed
  qed
qed

lemma v2fG_loop_frame:
  "graph_nodesG (state_of (forEach nb (\<lambda>factor. updateVariableToFactorMessageG k factor) s))
     = graph_nodesG s
   \<and> evidenceG (state_of (forEach nb (\<lambda>factor. updateVariableToFactorMessageG k factor) s))
     = evidenceG s"
  by (rule forEach_inv [where P = "\<lambda>s'. graph_nodesG s' = graph_nodesG s \<and> evidenceG s' = evidenceG s"])
     (simp_all add: v2fG_frame)

text \<open>
  Claim C6, as amended. When a Gaussian variable without evidence has a neighbour list that is
  not empty and holds one factor only, \<open>updateVariableToFactorMessage\<close> reduces an empty list
  without initial value, the sweep throws, and so does \<open>runIterations\<close> for every budget of at
  least 1. Hence the sweep completes only when every variable without evidence has no
  neighbouring factor or at least two different ones.
\<close>

theorem single_neighbour_throws:
  assumes var: "aget (graph_nodesG s) k = Some (GaussianVariable nm i nb m v cm cv)"
    and noev: "evidenceG s k = None"
    and nb: "nb \<noteq> []" "\<forall>p \<in> set nb. p = f"
  shows "threw (updateAllMessagesG s) \<and> threw (fst (runIterationsG s (Suc r) tol))"
proof -
  let ?P = "\<lambda>s'. graph_nodesG s' = graph_nodesG s \<and> evidenceG s' = evidenceG s"
  let ?body = "\<lambda>k s. case aget (graph_nodesG s) k of
                    Some (GaussianVariable nm i nb m v cm cv) \<Rightarrow>
                      forEach nb (\<lambda>factor. updateVariableToFactorMessageG k factor) s
                  | _ \<Rightarrow> Done s"
  have k: "k \<in> set [0..<length (graph_nodesG s)]"
    using var by (simp add: aget_def split: if_splits)
  have pres: "?P (state_of (?body y s'))" if "?P s'" for y s'
    using that v2fG_loop_frame [of _ y s']
    by (auto split: option.splits GaussianNode.splits)
  have f: "f \<in> set nb" using nb by (cases nb) auto
  have thr: "threw (?body k s')" if "?P s'" for s'
  proof -
    have "threw (forEach nb (\<lambda>factor. updateVariableToFactorMessageG k factor) s')"
    proof (rule forEach_throws [where P = ?P and body = "\<lambda>factor. updateVariableToFactorMessageG k factor", OF f])
      show "?P (state_of (updateVariableToFactorMessageG k y t))" if "?P t" for y t
        using that v2fG_frame [of k y t] by simp
      show "threw (updateVariableToFactorMessageG k f t)" if "?P t" for t
        using that var noev nb(2) by (intro v2fG_throws [where nb = nb]) auto
      show "?P s'" by (rule that)
    qed
    with that var show ?thesis by simp
  qed
  have "threw (forEach [0..<length (graph_nodesG s)] ?body s)"
    by (rule forEach_throws [where P = ?P and body = ?body, OF k pres thr]) simp_all
  then have 1: "threw (updateAllMessagesG s)"
    unfolding updateAllMessagesG_def
    by (cases "forEach [0..<length (graph_nodesG s)] ?body s") simp_all
  then have "threw (andThen (updateAllMessagesG s) updateBeliefsG)"
    by (cases "updateAllMessagesG s") simp_all
  then have 2: "threw (fst (runIterationsG s (Suc r) tol))"
    by (cases "andThen (updateAllMessagesG s) updateBeliefsG")
       (simp_all add: runIterationsG_def Let_def)
  from 1 2 show ?thesis by simp
qed

theorem single_neighbour_throws_witness:
  "threw (updateAllMessagesG (state_of (fst (GaussianBeliefPropagation_new pair_graphG None))))
   \<and> threw (fst (runIterationsG (state_of (fst (GaussianBeliefPropagation_new pair_graphG None)))
                  (Suc 9) None))"
  using single_neighbour_throws [where s = "state_of (fst (GaussianBeliefPropagation_new pair_graphG None))"
      and k = 0 and nm = "''A''" and i = 0 and nb = "[2]" and m = "Fin 2" and v = "Fin 1"
      and cm = "Fin 2" and cv = "Fin 1" and f = 2 and r = 9 and tol = None]
  by (simp add: pair_graphG_def eval_simps GaussianBeliefPropagation_new_def)

text \<open>
  Claim C6, counterexample. A variable without evidence and without any neighbouring factor:
  the sweep is total on it, and \<open>runIterations\<close> completes.
\<close>

theorem isolated_variable_completes:
  "runIterationsG (state_of (fst (GaussianBeliefPropagation_new lone_variable_graphG None)))
     (Suc 0) None
   = (Done (state_of (fst (GaussianBeliefPropagation_new lone_variable_graphG None))),
      [ConvergedAfter (Suc 0)])
   \<and> evidenceG (state_of (fst (GaussianBeliefPropagation_new lone_variable_graphG None))) 0 = None
   \<and> map neighborsG
        (graph_nodesG (state_of (fst (GaussianBeliefPropagation_new lone_variable_graphG None))))
     = [[]]"
  by (simp add: lone_variable_graphG_def eval_simps sweep_simpsG)

section \<open>Evidence is kept\<close>

lemma frame_refl: "frame s s"
  by (simp add: frame_def)

lemma frame_trans: "frame a b \<Longrightarrow> frame b c \<Longrightarrow> frame a c"
  by (simp add: frame_def)

lemma frame_messages: "frame s (s\<lparr> messages := m \<rparr>)" "frame s (s\<lparr> nextMessages := nm \<rparr>)"
  by (simp_all add: frame_def)

lemma v2f_frame: "frame s (state_of (updateVariableToFactorMessage k f s))"
  unfolding updateVariableToFactorMessage_def
  by (simp add: state_of_run frame_refl frame_messages split: sum.splits)

lemma f2v_frame: "frame s (state_of (updateFactorToVariableMessage k f s))"
  unfolding updateFactorToVariableMessage_def
  by (simp add: state_of_run frame_refl frame_messages split: sum.splits)

lemma updateAllMessages_frame: "frame s (state_of (updateAllMessages s))"
  unfolding updateAllMessages_def
proof (intro andThen_rel [where R = frame] forEach_rel [where R = frame])
  fix k s
  show "frame s (state_of (case aget (graph_nodes s) k of
          Some (BayesVariable nm i nb pv cb lb) \<Rightarrow>
            forEach nb (\<lambda>factor. updateVariableToFactorMessage k factor) s
        | _ \<Rightarrow> Done s))"
    by (auto split: option.splits BayesNode.splits
        intro!: frame_refl forEach_rel [where R = frame] v2f_frame elim: frame_trans)
  show "frame s (state_of (case aget (graph_nodes s) k of
          Some (BayesFactor nm i nb pot lpot) \<Rightarrow>
            forEach nb (\<lambda>variable. updateFactorToVariableMessage k variable) s
        | _ \<Rightarrow> Done s))"
    by (auto split: option.splits BayesNode.splits
        intro!: frame_refl forEach_rel [where R = frame] f2v_frame elim: frame_trans)
  show "frame s (state_of (Done (s\<lparr> messages := nextMessages s, nextMessages := messages s \<rparr>)))"
    by (simp add: frame_def)
qed (auto intro: frame_refl elim: frame_trans)

lemma updateBelief_frame: "frame s (state_of (updateBelief k s))"
proof (cases "aget (graph_nodes s) k")
  case None
  then show ?thesis by (simp add: updateBelief_def frame_refl)
next
  case (Some n)
  then have k: "k < length (graph_nodes s)" by (simp add: aget_def split: if_splits)
  show ?thesis
  proof (cases n)
    case (BayesFactor nm i nb pot lpot)
    with Some show ?thesis by (simp add: updateBelief_def frame_refl)
  next
    case (BayesVariable nm i nb pv cb lb)
    have nm: "name (graph_nodes s ! k) = nm"
      using Some BayesVariable by (simp add: aget_def split: if_splits)
    have names: "map name ((graph_nodes s)[k := BayesVariable nm i nb pv cb' lb'])
        = map name (graph_nodes s)" for cb' lb'
      using nm k by (simp add: map_update list_update_same_conv)
    have other: "aget ((graph_nodes s)[k := n']) j = aget (graph_nodes s) j"
      if "j \<noteq> k" for j n'
      using that by (simp add: aget_def)
    show ?thesis
    proof (cases "evidence s k")
      case (Some y)
      with \<open>aget (graph_nodes s) k = Some n\<close> BayesVariable show ?thesis
        by (simp add: updateBelief_def frame_refl)
    next
      case None
      then have "j \<noteq> k" if "evidence s j \<noteq> None" for j
        using that by auto
      with \<open>aget (graph_nodes s) k = Some n\<close> BayesVariable names None other show ?thesis
        by (simp add: updateBelief_def state_of_run frame_def Let_def split: sum.splits)
    qed
  qed
qed

lemma updateBeliefs_frame: "frame s (state_of (updateBeliefs s))"
  unfolding updateBeliefs_def
  by (rule forEach_rel [where R = frame]) (auto intro: frame_refl updateBelief_frame elim: frame_trans)

lemma sweep_frame: "frame s (state_of (andThen (updateAllMessages s) updateBeliefs))"
  by (rule andThen_rel [where R = frame])
     (auto intro: updateAllMessages_frame updateBeliefs_frame elim: frame_trans)

lemma iterations_frame: "frame s (state_of (fst (iterations r i n tol s)))"
proof (induction r arbitrary: i s)
  case 0
  show ?case by (simp add: frame_refl)
next
  case (Suc r)
  show ?case
  proof (cases "andThen (updateAllMessages s) updateBeliefs")
    case (Threw e s')
    with sweep_frame [of s] show ?thesis by simp
  next
    case (Done s')
    with sweep_frame [of s] have f: "frame s s'" by simp
    show ?thesis
    proof (cases "maxDiff_of (List.map_filter currentBelief (graph_nodes s)) (graph_nodes s')")
      case (Inl e)
      with Done f show ?thesis by simp
    next
      case (Inr d)
      show ?thesis
      proof (cases "jlt d tol")
        case True
        with Done Inr f show ?thesis by simp
      next
        case False
        from frame_trans [OF f Suc.IH [of s' "i + 1"]] Done Inr False show ?thesis by simp
      qed
    qed
  qed
qed

lemma runIterations_frame: "frame s (state_of (fst (runIterations s n tol)))"
  by (simp add: runIterations_def iterations_frame)

lemma findIndex_map: "findIndex (\<lambda>n. f n = x) xs = findIndex (\<lambda>y. y = x) (map f xs)"
  by (induction xs) auto

lemma find_findIndex:
  "find p xs = (case findIndex p xs of None \<Rightarrow> None | Some k \<Rightarrow> aget xs k)"
proof (cases "findIndex p xs")
  case None
  then have "find p xs = None" by (simp add: findIndex_None)
  with None show ?thesis by simp
next
  case (Some k)
  with findIndex_Some_aget [OF Some] show ?thesis by simp
qed

lemma getBeliefs_frame:
  assumes "frame s s'" and "findIndex (\<lambda>n. name n = nodeId) (graph_nodes s) = Some k"
    and "evidence s k \<noteq> None"
  shows "getBeliefs s' nodeId = getBeliefs s nodeId"
proof -
  have "findIndex (\<lambda>n. name n = nodeId) (graph_nodes s') = Some k"
    using assms(1,2) by (simp add: findIndex_map [of name] frame_def)
  with assms show ?thesis
    by (simp add: getBeliefs_def find_findIndex frame_def)
qed

lemma setEvidence_variable:
  assumes "findIndex (\<lambda>n. name n = nodeId) (graph_nodes s) = Some k"
    and "aget (graph_nodes s) k = Some (BayesVariable nm i nb pv cb lb)"
  shows "graph_nodes (state_of (setEvidence s nodeId val)) =
           (graph_nodes s)[k := BayesVariable nm i nb pv
              (map (\<lambda>v. if jeq v val then Fin 1 else Fin 0) pv)
              (map (\<lambda>v. if jeq v (Fin 1) then Fin 0 else NegInf)
                 (map (\<lambda>v. if jeq v val then Fin 1 else Fin 0) pv))]
       \<and> evidence (state_of (setEvidence s nodeId val)) = (evidence s)(k \<mapsto> val)
       \<and> dampingFactor (state_of (setEvidence s nodeId val)) = dampingFactor s"
proof -
  let ?belief = "map (\<lambda>v. if jeq v val then Fin 1 else Fin 0) pv"
  let ?s1 = "s\<lparr> evidence := (evidence s)(k \<mapsto> val),
               graph_nodes := (graph_nodes s)[k := BayesVariable nm i nb pv ?belief
                 (map (\<lambda>v. if jeq v (Fin 1) then Fin 0 else NegInf) ?belief)],
               variableMarginals := aset [] (variableMarginals s) i ?belief \<rparr>"
  let ?body = "\<lambda>factor s.
                      run s (bindE (deref (graph_nodes s) factor) (\<lambda>f.
                             set_cell [] (messages s) i (node_id f) ?belief))
                        (\<lambda>m. let s' = s\<lparr> messages := m \<rparr> in
                          run s' (bindE (deref (graph_nodes s') factor) (\<lambda>f.
                                  set_cell [] (nextMessages s') i (node_id f) ?belief))
                            (\<lambda>nm. Done (s'\<lparr> nextMessages := nm \<rparr>)))"
  let ?P = "\<lambda>s'. graph_nodes s' = graph_nodes ?s1 \<and> evidence s' = evidence ?s1
              \<and> dampingFactor s' = dampingFactor ?s1"
  have eq: "setEvidence s nodeId val = forEach nb ?body ?s1"
    using assms by (simp add: setEvidence_def Let_def)
  have "?P (state_of (forEach nb ?body ?s1))"
    by (rule forEach_inv [where P = ?P])
       (auto simp: state_of_run Let_def split: sum.splits)
  with eq show ?thesis by simp
qed

lemma setEvidence_noop:
  assumes "\<forall>n. find (\<lambda>n. name n = nodeId) (graph_nodes s) = Some n \<longrightarrow> node_type n = FACTOR"
  shows "setEvidence s nodeId val = Done s"
proof (cases "findIndex (\<lambda>n. name n = nodeId) (graph_nodes s)")
  case None
  then show ?thesis by (simp add: setEvidence_def)
next
  case (Some k)
  from findIndex_Some_aget[OF Some] assms findIndex_Some[OF Some] show ?thesis
    by (auto simp: setEvidence_def Some split: option.splits BayesNode.splits)
qed

lemma setEvidence_cases:
  obtains (noop) "setEvidence s nodeId val = Done s"
  | (clamp) k nm i nb pv cb lb where
      "findIndex (\<lambda>n. name n = nodeId) (graph_nodes s) = Some k"
      "aget (graph_nodes s) k = Some (BayesVariable nm i nb pv cb lb)"
proof (cases "find (\<lambda>n. name n = nodeId) (graph_nodes s)")
  case None
  then show ?thesis using setEvidence_noop [of nodeId s val] noop by simp
next
  case (Some n)
  show ?thesis
  proof (cases n)
    case (BayesFactor nm i nb pot lpot)
    with Some show ?thesis using setEvidence_noop [of nodeId s val] noop by simp
  next
    case (BayesVariable nm i nb pv cb lb)
    obtain k where k: "findIndex (\<lambda>n. name n = nodeId) (graph_nodes s) = Some k"
      using Some by (cases "findIndex (\<lambda>n. name n = nodeId) (graph_nodes s)")
        (auto simp: findIndex_None)
    with findIndex_Some_aget [OF k] Some BayesVariable clamp show ?thesis by simp
  qed
qed

lemma find_holds: "find p xs = Some x \<Longrightarrow> p x"
  by (induction xs) (auto split: if_splits)

lemma setEvidence_other:
  assumes "aget (graph_nodes s) k = Some node" and "name node \<noteq> nodeId"
    and "evidence s k \<noteq> None"
  shows "evidence (state_of (setEvidence s nodeId val)) k \<noteq> None
       \<and> map name (graph_nodes (state_of (setEvidence s nodeId val))) = map name (graph_nodes s)
       \<and> aget (graph_nodes (state_of (setEvidence s nodeId val))) k = Some node"
proof (cases rule: setEvidence_cases [of s nodeId val])
  case noop
  with assms show ?thesis by simp
next
  case (clamp k' nm i nb pv cb lb)
  note eff = setEvidence_variable [OF clamp, of val]
  from findIndex_Some [OF clamp(1)] clamp(2) have k': "k' < length (graph_nodes s)"
    and old: "graph_nodes s ! k' = BayesVariable nm i nb pv cb lb"
    by (auto simp: aget_def split: if_splits)
  from clamp have "find (\<lambda>n. name n = nodeId) (graph_nodes s) = Some (BayesVariable nm i nb pv cb lb)"
    using findIndex_Some_aget by metis
  from find_holds [OF this] have nm: "nm = nodeId" by simp
  have "k' \<noteq> k"
  proof
    assume "k' = k"
    with assms(1) clamp(2) have "node = BayesVariable nm i nb pv cb lb" by simp
    with assms(2) nm show False by simp
  qed
  then have "aget (graph_nodes (state_of (setEvidence s nodeId val))) k = Some node"
    using eff assms(1) by (auto simp: aget_def split: if_splits)
  moreover have "map name (graph_nodes (state_of (setEvidence s nodeId val)))
      = map name (graph_nodes s)"
    using eff k' old by (simp add: map_update list_update_same_conv)
  ultimately show ?thesis using eff assms(3) by simp
qed

lemma calls_kept:
  assumes "aget (graph_nodes s) k = Some node" and "evidence s k \<noteq> None"
    and "\<forall>c \<in> set cs. \<not> observes (name node) c"
  shows "map name (graph_nodes (calls s cs)) = map name (graph_nodes s)
       \<and> aget (graph_nodes (calls s cs)) k = Some node"
  using assms
proof (induction cs arbitrary: s)
  case Nil
  then show ?case by simp
next
  case (Cons c cs)
  show ?case
  proof (cases c)
    case (Run n tol)
    let ?s' = "state_of (fst (runIterations s n tol))"
    from runIterations_frame [of s n tol] Cons.prems(1,2)
    have s': "aget (graph_nodes ?s') k = Some node" "evidence ?s' k \<noteq> None"
      "map name (graph_nodes ?s') = map name (graph_nodes s)"
      by (simp_all add: frame_def)
    from Cons.IH [OF s'(1,2)] Cons.prems(3) s'(3) Run show ?thesis by simp
  next
    case (Observe nodeId val)
    let ?s' = "state_of (setEvidence s nodeId val)"
    from Cons.prems(3) Observe have "name node \<noteq> nodeId" by auto
    from setEvidence_other [OF Cons.prems(1) this Cons.prems(2), of val]
    have s': "aget (graph_nodes ?s') k = Some node" "evidence ?s' k \<noteq> None"
      "map name (graph_nodes ?s') = map name (graph_nodes s)"
      by simp_all
    from Cons.IH [OF s'(1,2)] Cons.prems(3) s'(3) Observe show ?thesis by simp
  qed
qed

lemma evidenced_belief_stays:
  assumes "find (\<lambda>n. name n = nodeId) (graph_nodes s) = Some (BayesVariable nm i nb pv cb lb)"
    and "\<forall>c \<in> set cs. \<not> observes nodeId c"
  shows "getBeliefs (calls (state_of (setEvidence s nodeId val)) cs) nodeId
           = Inr (map (\<lambda>v. if jeq v val then Fin 1 else Fin 0) pv)"
proof -
  let ?s1 = "state_of (setEvidence s nodeId val)"
  let ?belief = "map (\<lambda>v. if jeq v val then Fin 1 else Fin 0) pv"
  let ?node = "BayesVariable nm i nb pv ?belief
                 (map (\<lambda>v. if jeq v (Fin 1) then Fin 0 else NegInf) ?belief)"
  obtain k where k: "findIndex (\<lambda>n. name n = nodeId) (graph_nodes s) = Some k"
    using assms(1) by (cases "findIndex (\<lambda>n. name n = nodeId) (graph_nodes s)")
      (auto simp: findIndex_None)
  then have node: "aget (graph_nodes s) k = Some (BayesVariable nm i nb pv cb lb)"
    using assms(1) findIndex_Some_aget by metis
  then have kl: "k < length (graph_nodes s)" and nk: "graph_nodes s ! k = BayesVariable nm i nb pv cb lb"
    by (auto simp: aget_def split: if_splits)
  from find_holds [OF assms(1)] have nm: "nm = nodeId" by simp
  note eff = setEvidence_variable [OF k node, of val]
  have names: "map name (graph_nodes ?s1) = map name (graph_nodes s)"
    using eff kl nk by (simp add: map_update list_update_same_conv)
  have at: "aget (graph_nodes ?s1) k = Some ?node" using eff kl by (simp add: aget_def)
  have ev: "evidence ?s1 k \<noteq> None" using eff by simp
  have "\<forall>c \<in> set cs. \<not> observes (name ?node) c" using assms(2) nm by simp
  from calls_kept [OF at ev this] names
  have fin: "map name (graph_nodes (calls ?s1 cs)) = map name (graph_nodes s)"
    "aget (graph_nodes (calls ?s1 cs)) k = Some ?node"
    by simp_all
  have "findIndex (\<lambda>n. name n = nodeId) (graph_nodes (calls ?s1 cs)) = Some k"
    using k fin(1) by (simp add: findIndex_map [of name])
  with fin(2) show ?thesis by (simp add: getBeliefs_def find_findIndex)
qed

lemma frameG_refl: "frameG s s"
  by (simp add: frameG_def)

lemma frameG_trans: "frameG a b \<Longrightarrow> frameG b c \<Longrightarrow> frameG a c"
  by (simp add: frameG_def)

lemma v2fG_frameG: "frameG s (state_of (updateVariableToFactorMessageG k f s))"
  unfolding updateVariableToFactorMessageG_def
  by (auto simp: state_of_run frameG_def Let_def split: sum.splits option.splits prod.splits)

lemma f2vG_frameG: "frameG s (state_of (updateFactorToVariableMessageG k f s))"
  unfolding updateFactorToVariableMessageG_def
  by (auto simp: state_of_run frameG_def Let_def split: sum.splits option.splits prod.splits)

lemma damp_entry_frameG: "frameG s (state_of (damp_entry i j s))"
  unfolding damp_entry_def
  by (auto simp: state_of_run frameG_def Let_def split: sum.splits)

lemma updateAllMessagesG_frameG: "frameG s (state_of (updateAllMessagesG s))"
  unfolding updateAllMessagesG_def
proof (intro andThen_rel [where R = frameG] forEach_rel [where R = frameG])
  fix k s
  show "frameG s (state_of (case aget (graph_nodesG s) k of
          Some (GaussianVariable nm i nb m v cm cv) \<Rightarrow>
            forEach nb (\<lambda>factor. updateVariableToFactorMessageG k factor) s
        | _ \<Rightarrow> Done s))"
    by (auto split: option.splits GaussianNode.splits
        intro!: frameG_refl forEach_rel [where R = frameG] v2fG_frameG elim: frameG_trans)
  show "frameG s (state_of (case aget (graph_nodesG s) k of
          Some (GaussianFactor nm i nb pm pp) \<Rightarrow>
            forEach nb (\<lambda>variable. updateFactorToVariableMessageG k variable) s
        | _ \<Rightarrow> Done s))"
    by (auto split: option.splits GaussianNode.splits
        intro!: frameG_refl forEach_rel [where R = frameG] f2vG_frameG elim: frameG_trans)
  show "frameG s (state_of (Done (s\<lparr> messages_mean := nextMessages_mean s,
                            messages_precision := nextMessages_precision s,
                            nextMessages_mean := messages_mean s,
                            nextMessages_precision := messages_precision s \<rparr>)))"
    by (simp add: frameG_def)
qed (auto intro: frameG_refl damp_entry_frameG elim: frameG_trans)

lemma updateBeliefG_frameG: "frameG s (state_of (updateBeliefG k s))"
proof (cases "aget (graph_nodesG s) k")
  case None
  then show ?thesis by (simp add: updateBeliefG_def frameG_refl)
next
  case (Some n)
  then have k: "k < length (graph_nodesG s)" by (simp add: aget_def split: if_splits)
  show ?thesis
  proof (cases n)
    case (GaussianFactor nm i nb pm pp)
    with Some show ?thesis by (simp add: updateBeliefG_def frameG_refl)
  next
    case (GaussianVariable nm i nb m v cm cv)
    have nm: "nameG (graph_nodesG s ! k) = nm"
      using Some GaussianVariable by (simp add: aget_def split: if_splits)
    have names: "map nameG ((graph_nodesG s)[k := GaussianVariable nm i nb m v cm' cv'])
        = map nameG (graph_nodesG s)" for cm' cv'
      using nm k by (simp add: map_update list_update_same_conv)
    have other: "aget ((graph_nodesG s)[k := n']) j = aget (graph_nodesG s) j"
      if "j \<noteq> k" for j n'
      using that by (simp add: aget_def)
    show ?thesis
    proof (cases "evidenceG s k")
      case (Some y)
      with \<open>aget (graph_nodesG s) k = Some n\<close> GaussianVariable show ?thesis
        by (simp add: updateBeliefG_def frameG_refl)
    next
      case None
      then have "j \<noteq> k" if "evidenceG s j \<noteq> None" for j
        using that by auto
      with \<open>aget (graph_nodesG s) k = Some n\<close> GaussianVariable names None other show ?thesis
        by (simp add: updateBeliefG_def state_of_run frameG_def Let_def
            split: sum.splits prod.splits)
    qed
  qed
qed

lemma updateBeliefsG_frameG: "frameG s (state_of (updateBeliefsG s))"
  unfolding updateBeliefsG_def
  by (rule forEach_rel [where R = frameG])
     (auto intro: frameG_refl updateBeliefG_frameG elim: frameG_trans)

lemma sweepG_frameG: "frameG s (state_of (andThen (updateAllMessagesG s) updateBeliefsG))"
  by (rule andThen_rel [where R = frameG])
     (auto intro: updateAllMessagesG_frameG updateBeliefsG_frameG elim: frameG_trans)

lemma iterationsG_frameG: "frameG s (state_of (fst (iterationsG r i n tol s)))"
proof (induction r arbitrary: i s)
  case 0
  show ?case by (simp add: frameG_refl)
next
  case (Suc r)
  show ?case
  proof (cases "andThen (updateAllMessagesG s) updateBeliefsG")
    case (Threw e s')
    with sweepG_frameG [of s] show ?thesis by simp
  next
    case (Done s')
    with sweepG_frameG [of s] have f: "frameG s s'" by simp
    show ?thesis
    proof (cases "jlt (maxDiff_ofG (List.map_filter beliefG (graph_nodesG s)) (graph_nodesG s')) tol")
      case True
      with Done f show ?thesis by simp
    next
      case False
      from frameG_trans [OF f Suc.IH [of s' "i + 1"]] Done False show ?thesis by simp
    qed
  qed
qed

lemma getBeliefsG_frameG:
  assumes "frameG s s'" and "findIndex (\<lambda>n. nameG n = nodeId) (graph_nodesG s) = Some k"
    and "evidenceG s k \<noteq> None"
  shows "getBeliefsG s' nodeId = getBeliefsG s nodeId"
proof -
  have "findIndex (\<lambda>n. nameG n = nodeId) (graph_nodesG s') = Some k"
    using assms(1,2) by (simp add: findIndex_map [of nameG] frameG_def)
  with assms show ?thesis
    by (simp add: getBeliefsG_def find_findIndex frameG_def)
qed

lemma setEvidenceG_variable:
  assumes "findIndex (\<lambda>n. nameG n = nodeId) (graph_nodesG s) = Some k"
    and "aget (graph_nodesG s) k = Some (GaussianVariable nm i nb m v cm cv)"
  shows "graph_nodesG (state_of (setEvidenceG s nodeId emean evariance)) =
           (graph_nodesG s)[k := GaussianVariable nm i nb m v emean evariance]
       \<and> evidenceG (state_of (setEvidenceG s nodeId emean evariance))
           = (evidenceG s)(k \<mapsto> (emean, evariance))"
proof -
  let ?s1 = "s\<lparr> evidenceG := (evidenceG s)(k \<mapsto> (emean, evariance)),
               graph_nodesG := (graph_nodesG s)[k :=
                 GaussianVariable nm i nb m v emean evariance] \<rparr>"
  let ?body = "\<lambda>factor s.
                      run s (deref (graph_nodesG s) factor)
                        (\<lambda>f.
                      run s (set_cell NaN (messages_mean s) i (node_idG f) emean)
                        (\<lambda>mm. let s = s\<lparr> messages_mean := mm \<rparr> in
                      run s (set_cell NaN (messages_precision s) i (node_idG f)
                               (jdiv (Fin 1) evariance))
                        (\<lambda>mp. let s = s\<lparr> messages_precision := mp \<rparr> in
                      run s (set_cell NaN (nextMessages_mean s) i (node_idG f) emean)
                        (\<lambda>nm. let s = s\<lparr> nextMessages_mean := nm \<rparr> in
                      run s (set_cell NaN (nextMessages_precision s) i (node_idG f)
                               (jdiv (Fin 1) evariance))
                        (\<lambda>np. Done (s\<lparr> nextMessages_precision := np \<rparr>))))))"
  let ?P = "\<lambda>s'. graph_nodesG s' = graph_nodesG ?s1 \<and> evidenceG s' = evidenceG ?s1"
  have eq: "setEvidenceG s nodeId emean evariance = forEach nb ?body ?s1"
    using assms by (simp add: setEvidenceG_def Let_def)
  have "?P (state_of (forEach nb ?body ?s1))"
    by (rule forEach_inv [where P = ?P])
       (auto simp: state_of_run Let_def split: sum.splits)
  with eq show ?thesis by simp
qed

lemma runIterationsG_frameG: "frameG s (state_of (fst (runIterationsG s n tol)))"
  by (simp add: runIterationsG_def iterationsG_frameG)

lemma setEvidenceG_cases:
  obtains (noop) "setEvidenceG s nodeId emean evariance = Done s"
  | (clamp) k nm i nb m v cm cv where
      "findIndex (\<lambda>n. nameG n = nodeId) (graph_nodesG s) = Some k"
      "aget (graph_nodesG s) k = Some (GaussianVariable nm i nb m v cm cv)"
proof (cases "findIndex (\<lambda>n. nameG n = nodeId) (graph_nodesG s)")
  case None
  then have "setEvidenceG s nodeId emean evariance = Done s" by (simp add: setEvidenceG_def)
  then show ?thesis by (rule noop)
next
  case (Some k)
  show ?thesis
  proof (cases "aget (graph_nodesG s) k")
    case None
    with Some have "setEvidenceG s nodeId emean evariance = Done s"
      by (simp add: setEvidenceG_def)
    then show ?thesis by (rule noop)
  next
    case (Some n)
    note n = this
    show ?thesis
    proof (cases n)
      case (GaussianVariable nm i nb m v cm cv)
      with n \<open>findIndex (\<lambda>n. nameG n = nodeId) (graph_nodesG s) = Some k\<close> show ?thesis
        by (intro clamp [of k nm i nb m v cm cv]) simp_all
    next
      case (GaussianFactor nm i nb pm pp)
      with n \<open>findIndex (\<lambda>n. nameG n = nodeId) (graph_nodesG s) = Some k\<close>
      have "setEvidenceG s nodeId emean evariance = Done s"
        by (simp add: setEvidenceG_def)
      then show ?thesis by (rule noop)
    qed
  qed
qed

lemma setEvidenceG_other:
  assumes "aget (graph_nodesG s) k = Some node" and "nameG node \<noteq> nodeId"
    and "evidenceG s k \<noteq> None"
  shows "evidenceG (state_of (setEvidenceG s nodeId emean evariance)) k \<noteq> None
       \<and> map nameG (graph_nodesG (state_of (setEvidenceG s nodeId emean evariance))) = map nameG (graph_nodesG s)
       \<and> aget (graph_nodesG (state_of (setEvidenceG s nodeId emean evariance))) k = Some node"
proof (cases rule: setEvidenceG_cases [of s nodeId emean evariance])
  case noop
  with assms show ?thesis by simp
next
  case (clamp k' nm i nb m v cm cv)
  note eff = setEvidenceG_variable [OF clamp, of emean evariance]
  from findIndex_Some [OF clamp(1)] clamp(2) have k': "k' < length (graph_nodesG s)"
    and old: "graph_nodesG s ! k' = GaussianVariable nm i nb m v cm cv"
    by (auto simp: aget_def split: if_splits)
  from clamp have "find (\<lambda>n. nameG n = nodeId) (graph_nodesG s) = Some (GaussianVariable nm i nb m v cm cv)"
    using findIndex_Some_aget by metis
  from find_holds [OF this] have nm: "nm = nodeId" by simp
  have "k' \<noteq> k"
  proof
    assume "k' = k"
    with assms(1) clamp(2) have "node = GaussianVariable nm i nb m v cm cv" by simp
    with assms(2) nm show False by simp
  qed
  then have "aget (graph_nodesG (state_of (setEvidenceG s nodeId emean evariance))) k = Some node"
    using eff assms(1) by (auto simp: aget_def split: if_splits)
  moreover have "map nameG (graph_nodesG (state_of (setEvidenceG s nodeId emean evariance)))
      = map nameG (graph_nodesG s)"
    using eff k' old by (simp add: map_update list_update_same_conv)
  ultimately show ?thesis using eff assms(3) by simp
qed

lemma callsG_kept:
  assumes "aget (graph_nodesG s) k = Some node" and "evidenceG s k \<noteq> None"
    and "\<forall>c \<in> set cs. \<not> observesG (nameG node) c"
  shows "map nameG (graph_nodesG (callsG s cs)) = map nameG (graph_nodesG s)
       \<and> aget (graph_nodesG (callsG s cs)) k = Some node"
  using assms
proof (induction cs arbitrary: s)
  case Nil
  then show ?case by simp
next
  case (Cons c cs)
  show ?case
  proof (cases c)
    case (RunG n tol)
    let ?s' = "state_of (fst (runIterationsG s n tol))"
    from runIterationsG_frameG [of s n tol] Cons.prems(1,2)
    have s': "aget (graph_nodesG ?s') k = Some node" "evidenceG ?s' k \<noteq> None"
      "map nameG (graph_nodesG ?s') = map nameG (graph_nodesG s)"
      by (simp_all add: frameG_def)
    from Cons.IH [OF s'(1,2)] Cons.prems(3) s'(3) RunG show ?thesis by simp
  next
    case (ObserveG nodeId emean evariance)
    let ?s' = "state_of (setEvidenceG s nodeId emean evariance)"
    from Cons.prems(3) ObserveG have "nameG node \<noteq> nodeId" by auto
    from setEvidenceG_other [OF Cons.prems(1) this Cons.prems(2), of emean evariance]
    have s': "aget (graph_nodesG ?s') k = Some node" "evidenceG ?s' k \<noteq> None"
      "map nameG (graph_nodesG ?s') = map nameG (graph_nodesG s)"
      by simp_all
    from Cons.IH [OF s'(1,2)] Cons.prems(3) s'(3) ObserveG show ?thesis by simp
  qed
qed

lemma evidenced_beliefG_stays:
  assumes "find (\<lambda>n. nameG n = nodeId) (graph_nodesG s) = Some (GaussianVariable nm i nb m v cm cv)"
    and "\<forall>c \<in> set cs. \<not> observesG nodeId c"
  shows "getBeliefsG (callsG (state_of (setEvidenceG s nodeId emean evariance)) cs) nodeId
           = Inr (emean, evariance)"
proof -
  let ?s1 = "state_of (setEvidenceG s nodeId emean evariance)"
  let ?node = "GaussianVariable nm i nb m v emean evariance"
  obtain k where k: "findIndex (\<lambda>n. nameG n = nodeId) (graph_nodesG s) = Some k"
    using assms(1) by (cases "findIndex (\<lambda>n. nameG n = nodeId) (graph_nodesG s)")
      (auto simp: findIndex_None)
  then have node: "aget (graph_nodesG s) k = Some (GaussianVariable nm i nb m v cm cv)"
    using assms(1) findIndex_Some_aget by metis
  then have kl: "k < length (graph_nodesG s)" and nk: "graph_nodesG s ! k = GaussianVariable nm i nb m v cm cv"
    by (auto simp: aget_def split: if_splits)
  from find_holds [OF assms(1)] have nm: "nm = nodeId" by simp
  note eff = setEvidenceG_variable [OF k node, of emean evariance]
  have names: "map nameG (graph_nodesG ?s1) = map nameG (graph_nodesG s)"
    using eff kl nk by (simp add: map_update list_update_same_conv)
  have at: "aget (graph_nodesG ?s1) k = Some ?node" using eff kl by (simp add: aget_def)
  have ev: "evidenceG ?s1 k \<noteq> None" using eff by simp
  have "\<forall>c \<in> set cs. \<not> observesG (nameG ?node) c" using assms(2) nm by simp
  from callsG_kept [OF at ev this] names
  have fin: "map nameG (graph_nodesG (callsG ?s1 cs)) = map nameG (graph_nodesG s)"
    "aget (graph_nodesG (callsG ?s1 cs)) k = Some ?node"
    by simp_all
  have "findIndex (\<lambda>n. nameG n = nodeId) (graph_nodesG (callsG ?s1 cs)) = Some k"
    using k fin(1) by (simp add: findIndex_map [of nameG])
  with fin(2) show ?thesis by (simp add: getBeliefsG_def find_findIndex)
qed

text \<open>
  Claim C2. After \<open>setEvidence\<close> on a name that refers to a variable, in any state of the
  engine, \<open>getBeliefs\<close> for that name returns the clamped belief, the vector with 1 where the
  possible value equals the observed one and 0 elsewhere in the discrete engine and the pair
  of observed mean and variance in the Gaussian engine, after any sequence of later calls
  that are \<open>runIterations\<close> with any budget and tolerance, completing or throwing, or
  \<open>setEvidence\<close> on other names.
\<close>

theorem evidence_is_invariant:
  assumes "find (\<lambda>n. name n = nodeId) (graph_nodes s) = Some (BayesVariable nm i nb pv cb lb)"
    and "\<forall>c \<in> set cs. \<not> observes nodeId c"
    and "find (\<lambda>n. nameG n = nodeIdG) (graph_nodesG g)
           = Some (GaussianVariable nmG iG nbG m v cm cv)"
    and "\<forall>c \<in> set csG. \<not> observesG nodeIdG c"
  shows "getBeliefs (calls (state_of (setEvidence s nodeId val)) cs) nodeId
           = Inr (map (\<lambda>v. if jeq v val then Fin 1 else Fin 0) pv)
       \<and> getBeliefsG (callsG (state_of (setEvidenceG g nodeIdG emean evariance)) csG) nodeIdG
           = Inr (emean, evariance)"
  using evidenced_belief_stays [OF assms(1,2)] evidenced_beliefG_stays [OF assms(3,4)] by simp

theorem evidence_is_invariant_witness:
  "getBeliefs (calls (state_of (setEvidence
       (state_of (fst (BeliefPropagation_new two_variable_graph (Some (Fin (3 / 10))))))
       ''A'' (Fin 1))) [Observe ''B'' (Fin 0), Run 200 None, Run 5 (Some (Fin 0))]) ''A''
     = Inr [Fin 0, Fin 1]
   \<and> getBeliefsG (callsG (state_of (setEvidenceG
       (state_of (fst (GaussianBeliefPropagation_new pair_graphG None)))
       ''A'' (Fin 2) (Fin (1 / 10 ^ 6)))) [ObserveG ''B'' (Fin 0) (Fin 1), RunG 10 None]) ''A''
     = Inr (Fin 2, Fin (1 / 10 ^ 6))"
  using evidence_is_invariant [where s = "state_of (fst (BeliefPropagation_new two_variable_graph (Some (Fin (3 / 10)))))"
      and nodeId = "''A''" and nm = "''A''" and i = 0 and nb = "[2]" and pv = "[Fin 0, Fin 1]"
      and cb = "[Fin (1 / 2), Fin (1 / 2)]" and lb = "[Fin (ln (1 / 2)), Fin (ln (1 / 2))]"
      and g = "state_of (fst (GaussianBeliefPropagation_new pair_graphG None))"
      and nodeIdG = "''A''" and nmG = "''A''" and iG = 0 and nbG = "[2]" and m = "Fin 2"
      and v = "Fin 1" and cm = "Fin 2" and cv = "Fin 1" and val = "Fin 1"
      and cs = "[Observe ''B'' (Fin 0), Run 200 None, Run 5 (Some (Fin 0))]" and emean = "Fin 2"
      and evariance = "Fin (1 / 10 ^ 6)" and csG = "[ObserveG ''B'' (Fin 0) (Fin 1), RunG 10 None]"]
  by (simp add: two_variable_graph_def pair_graphG_def eval_simps BeliefPropagation_new_def
      GaussianBeliefPropagation_new_def jeq_def)

section \<open>Log-beliefs\<close>

lemma init_node_nodes:
  "graph_nodes (state_of (init_node k s)) =
     (case aget (graph_nodes s) k of
        Some (BayesVariable nm i nb pv cb lb) \<Rightarrow>
          (graph_nodes s)[k := BayesVariable nm i nb pv
             (replicate (length pv) (jdiv (Fin 1) (Fin (real (length pv)))))
             (replicate (length pv) (jlog (jdiv (Fin 1) (Fin (real (length pv))))))]
      | _ \<Rightarrow> graph_nodes s)"
  by (auto simp: init_node_def Let_def split: option.splits BayesNode.splits)

lemma init_edge_nodes: "graph_nodes (state_of (init_edge e s)) = graph_nodes s"
  by (auto simp: init_edge_def state_of_run split: prod.splits sum.splits)

lemma init_node_log:
  "(k < length (graph_nodes s) \<longrightarrow> log_node (graph_nodes s ! k))
   \<Longrightarrow> (k < length (graph_nodes (state_of (init_node y s)))
        \<longrightarrow> log_node (graph_nodes (state_of (init_node y s)) ! k))"
  by (auto simp: init_node_nodes aget_def nth_list_update split: option.splits BayesNode.splits)

lemma init_node_log_est:
  "init_node k s = Done s' \<Longrightarrow> k < length (graph_nodes s') \<longrightarrow> log_node (graph_nodes s' ! k)"
  using init_node_nodes [of k s]
  by (cases "graph_nodes s ! k")
     (auto simp: aget_def nth_list_update split: option.splits BayesNode.splits if_splits)

lemma init_node_length: "length (graph_nodes (state_of (init_node k s))) = length (graph_nodes s)"
  by (auto simp: init_node_nodes split: option.splits BayesNode.splits)

lemma initializeMessages_log:
  assumes "initializeMessages s0 = Done s"
  shows "log_ok s"
proof -
  let ?n = "length (graph_nodes s0)"
  let ?s = "s0\<lparr> messages := replicate ?n (replicate ?n []),
                nextMessages := replicate ?n (replicate ?n []),
                variableMarginals := replicate ?n [] \<rparr>"
  from assms obtain s1 where s1: "forEach [0..<?n] init_node ?s = Done s1"
      and s: "forEach (graph_edges ?s) init_edge s1 = Done s"
    by (cases "forEach [0..<?n] init_node ?s") (auto simp: initializeMessages_def Let_def)
  have len: "length (graph_nodes s1) = ?n"
    using forEach_inv [where P = "\<lambda>s. length (graph_nodes s) = ?n" and body = init_node
        and xs = "[0..<?n]" and s = ?s] s1
    by (simp add: init_node_length)
  have "\<forall>k \<in> set [0..<?n]. k < length (graph_nodes s1) \<longrightarrow> log_node (graph_nodes s1 ! k)"
  proof (rule forEach_Done_all [OF s1, where Q = "\<lambda>k s. k < length (graph_nodes s) \<longrightarrow> log_node (graph_nodes s ! k)"])
    show "k < length (graph_nodes s') \<longrightarrow> log_node (graph_nodes s' ! k)"
      if "init_node k s = Done s'" for k s s'
      using that by (rule init_node_log_est)
    show "k < length (graph_nodes (state_of (init_node y s)))
        \<longrightarrow> log_node (graph_nodes (state_of (init_node y s)) ! k)"
      if "k < length (graph_nodes s) \<longrightarrow> log_node (graph_nodes s ! k)" for k y s
      using that by (rule init_node_log)
  qed
  with len have "\<forall>n \<in> set (graph_nodes s1). log_node n"
    by (auto simp: in_set_conv_nth)
  moreover have "graph_nodes s = graph_nodes s1"
    using forEach_inv [where P = "\<lambda>s. graph_nodes s = graph_nodes s1" and body = init_edge
        and xs = "graph_edges ?s" and s = s1] s
    by (simp add: init_edge_nodes)
  ultimately show ?thesis by (simp add: log_ok_def)
qed

lemma log_ok_update:
  "log_ok s \<Longrightarrow> log_node n \<Longrightarrow> log_ok (s\<lparr> graph_nodes := (graph_nodes s)[k := n] \<rparr>)"
  by (auto simp: log_ok_def dest!: set_update_subset_insert [THEN subsetD])

lemma clamped_log:
  "map (\<lambda>v. if jeq v (Fin 1) then Fin 0 else NegInf) (map (\<lambda>v. if jeq v val then Fin 1 else Fin 0) pv)
     = map jlog (map (\<lambda>v. if jeq v val then Fin 1 else Fin 0) pv)"
  by (auto simp: jeq_def)

lemma setEvidence_log: "log_ok s \<Longrightarrow> log_ok (state_of (setEvidence s nodeId val))"
proof (cases rule: setEvidence_cases [of s nodeId val])
  case noop
  assume "log_ok s"
  with noop show ?thesis by simp
next
  case (clamp k nm i nb pv cb lb)
  assume ok: "log_ok s"
  have "log_ok (s\<lparr> graph_nodes := (graph_nodes s)[k := BayesVariable nm i nb pv
              (map (\<lambda>v. if jeq v val then Fin 1 else Fin 0) pv)
              (map (\<lambda>v. if jeq v (Fin 1) then Fin 0 else NegInf)
                 (map (\<lambda>v. if jeq v val then Fin 1 else Fin 0) pv))] \<rparr>)"
    by (rule log_ok_update [OF ok]) (auto simp: jeq_def)
  then show ?thesis
    using setEvidence_variable [OF clamp, of val] by (simp add: log_ok_def)
qed

lemma v2f_nodes: "graph_nodes (state_of (updateVariableToFactorMessage k f s)) = graph_nodes s"
  unfolding updateVariableToFactorMessage_def
  by (simp add: state_of_run split: sum.splits)

lemma f2v_nodes: "graph_nodes (state_of (updateFactorToVariableMessage k f s)) = graph_nodes s"
  unfolding updateFactorToVariableMessage_def
  by (simp add: state_of_run split: sum.splits)

lemma updateAllMessages_nodes: "graph_nodes (state_of (updateAllMessages s)) = graph_nodes s"
proof -
  let ?P = "\<lambda>s'. graph_nodes s' = graph_nodes s"
  have a: "?P (state_of (case aget (graph_nodes t) k of
          Some (BayesVariable nm i nb pv cb lb) \<Rightarrow>
            forEach nb (\<lambda>factor. updateVariableToFactorMessage k factor) t
        | _ \<Rightarrow> Done t))" if "?P t" for k t
    using that
    by (auto split: option.splits BayesNode.splits
        intro!: forEach_inv [where P = ?P] simp: v2f_nodes)
  have b: "?P (state_of (case aget (graph_nodes t) k of
          Some (BayesFactor nm i nb pot lpot) \<Rightarrow>
            forEach nb (\<lambda>variable. updateFactorToVariableMessage k variable) t
        | _ \<Rightarrow> Done t))" if "?P t" for k t
    using that
    by (auto split: option.splits BayesNode.splits
        intro!: forEach_inv [where P = ?P] simp: f2v_nodes)
  show ?thesis
    unfolding updateAllMessages_def
    by (intro andThen_inv [where P = ?P] forEach_inv [where P = ?P] a b) simp_all
qed

lemma log_nodes_update:
  "\<forall>n \<in> set ns. log_node n \<Longrightarrow> log_node n' \<Longrightarrow> \<forall>n \<in> set (ns[k := n']). log_node n"
  by (auto dest!: set_update_subset_insert [THEN subsetD])

lemma updateBelief_log:
  assumes "log_ok s"
  shows "log_ok (state_of (updateBelief k s))"
proof (cases "aget (graph_nodes s) k")
  case None
  with assms show ?thesis by (simp add: updateBelief_def)
next
  case (Some n)
  show ?thesis
  proof (cases n)
    case (BayesFactor nm i nb pot lpot)
    with Some assms show ?thesis by (simp add: updateBelief_def)
  next
    case (BayesVariable nm i nb pv cb lb)
    have new: "log_ok (s\<lparr> graph_nodes := (graph_nodes s)[k :=
                   BayesVariable nm i nb pv belief (map jlog belief)],
                 variableMarginals := vm \<rparr>)" for belief vm
      using log_nodes_update [of "graph_nodes s" "BayesVariable nm i nb pv belief (map jlog belief)" k]
        assms by (simp add: log_ok_def)
    show ?thesis
      using Some BayesVariable assms new
      by (simp add: updateBelief_def state_of_run Let_def split: sum.splits)
  qed
qed

lemma sweep_log: "log_ok s \<Longrightarrow> log_ok (state_of (andThen (updateAllMessages s) updateBeliefs))"
proof (rule andThen_inv [where P = log_ok])
  assume "log_ok s"
  then show "log_ok (state_of (updateAllMessages s))"
    by (simp add: log_ok_def updateAllMessages_nodes)
  show "log_ok (state_of (updateBeliefs t))" if "log_ok t" for t
    unfolding updateBeliefs_def
    by (rule forEach_inv [where P = log_ok]) (simp_all add: updateBelief_log that)
qed

lemma iterations_log: "log_ok s \<Longrightarrow> log_ok (state_of (fst (iterations r i n tol s)))"
proof (induction r arbitrary: i s)
  case 0
  then show ?case by simp
next
  case (Suc r)
  show ?case
  proof (cases "andThen (updateAllMessages s) updateBeliefs")
    case (Threw e s')
    with sweep_log [OF Suc.prems] show ?thesis by simp
  next
    case (Done s')
    with sweep_log [OF Suc.prems] have ok: "log_ok s'" by simp
    show ?thesis
    proof (cases "maxDiff_of (List.map_filter currentBelief (graph_nodes s)) (graph_nodes s')")
      case (Inl e)
      with Done ok show ?thesis by simp
    next
      case (Inr d)
      show ?thesis
      proof (cases "jlt d tol")
        case True
        with Done Inr ok show ?thesis by simp
      next
        case False
        from Suc.IH [OF ok, of "i + 1"] Done Inr False show ?thesis by simp
      qed
    qed
  qed
qed

lemma reachable_log: "reachable s \<Longrightarrow> log_ok s"
proof (induction rule: reachable.induct)
  case (new graph damping s console)
  then show ?case
    by (auto simp: BeliefPropagation_new_def Let_def intro: initializeMessages_log)
next
  case (evidence s nodeId val)
  then show ?case by (simp add: setEvidence_log)
next
  case (iterate s maxIterations tolerance)
  then show ?case by (simp add: runIterations_def iterations_log)
qed

lemma jlog_NegInf_iff: "jlog x = NegInf \<longleftrightarrow> x = Fin 0"
  by (cases x) auto

lemma jexp_jlog: "0 \<le> r \<Longrightarrow> jexp (jlog (Fin r)) = Fin r"
  by auto

text \<open>
  Claim C8. In every reachable engine of the discrete engine, for every name on which
  \<open>getBeliefs\<close> returns a vector, \<open>getLogBeliefs\<close> returns the vector of the logarithms of its
  entries: an entry is \<^verbatim>\<open>-Infinity\<close> exactly where the belief is 0, and the exponential of the
  log-belief is the belief wherever the belief is a non-negative number.
\<close>

theorem log_beliefs_consistent:
  assumes "reachable s" and "getBeliefs s nodeId = Inr b"
  shows "\<exists>lb. getLogBeliefs s nodeId = Inr lb \<and> length lb = length b
     \<and> (\<forall>i < length b.
           lb ! i = jlog (b ! i)
         \<and> (lb ! i = NegInf \<longleftrightarrow> b ! i = Fin 0)
         \<and> (\<forall>r. b ! i = Fin r \<and> 0 \<le> r \<longrightarrow> jexp (lb ! i) = b ! i))"
proof -
  from assms(2) obtain nm i nb pv lb where
    f: "find (\<lambda>n. name n = nodeId) (graph_nodes s) = Some (BayesVariable nm i nb pv b lb)"
    by (auto simp: getBeliefs_def split: option.splits BayesNode.splits)
  then have "BayesVariable nm i nb pv b lb \<in> set (graph_nodes s)"
    by (auto simp: find_Some_iff)
  with reachable_log [OF assms(1)] have lb: "lb = map jlog b"
    by (auto simp: log_ok_def)
  have "getLogBeliefs s nodeId = Inr lb" using f by (simp add: getLogBeliefs_def)
  with lb show ?thesis
    by (auto simp: jlog_NegInf_iff)
qed

theorem log_beliefs_consistent_witness:
  "\<exists>lb. getLogBeliefs (state_of (fst (runIterations (state_of (setEvidence
        (state_of (fst (BeliefPropagation_new single_variable_graph None)))
        ''A'' (Fin 1))) (Suc 0) None))) ''A'' = Inr lb
     \<and> lb ! 0 = NegInf \<and> lb ! 1 = Fin 0"
proof -
  let ?s = "state_of (fst (runIterations (state_of (setEvidence
        (state_of (fst (BeliefPropagation_new single_variable_graph None)))
        ''A'' (Fin 1))) (Suc 0) None))"
  have "BeliefPropagation_new single_variable_graph None
      = (Done (state_of (fst (BeliefPropagation_new single_variable_graph None))), [])"
    by (simp add: single_variable_graph_def eval_simps sweep_simps)
  then have r: "reachable ?s"
    by (intro reachable.iterate reachable.evidence reachable.new)
  have g: "getBeliefs ?s ''A'' = Inr [Fin 0, Fin 1]"
    by (simp add: single_variable_graph_def eval_simps sweep_simps setEvidence_def jeq_def
        getBeliefs_def)
  from log_beliefs_consistent [OF r g] obtain lb where
    lb: "getLogBeliefs ?s ''A'' = Inr lb"
      "\<forall>i < length [Fin 0, Fin (1::real)]. lb ! i = jlog ([Fin 0, Fin 1] ! i)"
    by auto
  from lb(2) have "lb ! 0 = NegInf" "lb ! 1 = Fin 0"
    by (auto simp: nth_Cons')
  with lb(1) show ?thesis by blast
qed

section \<open>Beliefs and underflow\<close>

lemma tiny_pos [simp]: "0 < tiny" "tiny \<noteq> 0" "\<not> tiny \<le> 0" "0 \<le> tiny" "0 < 1 + tiny"
  "tiny < 1" "tiny \<le> 1" "\<not> 1 \<le> tiny" "1 + tiny \<noteq> 0"
  by (simp_all add: tiny_def)

lemma ln_tiny: "ln tiny = - (200 * ln 10)"
proof -
  have a: "ln ((10::real) ^ 200) = real 200 * ln 10" by (rule ln_realpow)
  have "ln tiny = ln 1 - ln ((10::real) ^ 200)" unfolding tiny_def by (subst ln_div) simp
  then have "ln tiny = - (real 200 * ln 10)" by (simp only: a ln_one diff_0)
  then show ?thesis by simp
qed

lemma ln_tiny_bounds: "- 600 < ln tiny" "ln tiny < - 400"
  using ln_10_bounds by (simp_all add: ln_tiny)

lemma ln_one_tiny: "0 < ln (1 + tiny)" "ln (1 + tiny) < 1"
proof -
  show "0 < ln (1 + tiny)" by (simp add: ln_gt_zero)
  have "ln (1 + tiny) \<le> tiny" by (rule ln_add_one_self_le_self) simp
  also have "tiny < 1" by simp
  finally show "ln (1 + tiny) < 1" .
qed

lemma logSumExp_pair:
  "logSumExp [Fin (ln tiny), Fin 0] = Fin (ln (1 + tiny))"
  "logSumExp [Fin 0, Fin (ln tiny)] = Fin (ln (1 + tiny))"
proof -
  have m: "max (ln tiny) 0 = 0" "max 0 (ln tiny) = 0" using ln_tiny_bounds by simp_all
  have e: "Math_exp (Fin (ln tiny)) = Fin tiny"
    using ln_tiny_bounds by (simp add: Math_exp_def)
  show "logSumExp [Fin (ln tiny), Fin 0] = Fin (ln (1 + tiny))"
    by (simp add: logSumExp_def Math_max_def jeq_def jsub_def m e add.commute)
  show "logSumExp [Fin 0, Fin (ln tiny)] = Fin (ln (1 + tiny))"
    by (simp add: logSumExp_def Math_max_def jeq_def jsub_def m e)
qed

lemma message_entries:
  "Math_exp (Fin (ln tiny - ln (1 + tiny))) = Fin (tiny / (1 + tiny))"
  "Math_exp (Fin (- ln (1 + tiny))) = Fin (1 / (1 + tiny))"
proof -
  have "\<not> ln tiny - ln (1 + tiny) < - 746" "\<not> 710 < ln tiny - ln (1 + tiny)"
    "\<not> - ln (1 + tiny) < - 746" "\<not> 710 < - ln (1 + tiny)"
    using ln_tiny_bounds ln_one_tiny by linarith+
  then show "Math_exp (Fin (ln tiny - ln (1 + tiny))) = Fin (tiny / (1 + tiny))"
    "Math_exp (Fin (- ln (1 + tiny))) = Fin (1 / (1 + tiny))"
    by (simp_all add: Math_exp_def exp_diff exp_minus inverse_eq_divide)
qed

lemma product_underflows:
  "Math_exp (Fin (2 * ln (1 / (1 + tiny)) + 2 * ln (tiny / (1 + tiny)))) = Fin 0"
  "Math_exp (Fin (2 * ln (tiny / (1 + tiny)) + 2 * ln (1 / (1 + tiny)))) = Fin 0"
proof -
  have a: "ln (1 / (1 + tiny)) = - ln (1 + tiny)" by (simp add: ln_div)
  have b: "ln (tiny / (1 + tiny)) = ln tiny - ln (1 + tiny)" by (simp add: ln_div)
  have "2 * ln tiny - 4 * ln (1 + tiny) < - 746"
    using ln_tiny_bounds ln_one_tiny by linarith
  then have "2 * ln (1 / (1 + tiny)) + 2 * ln (tiny / (1 + tiny)) < - 746"
    unfolding a b by simp
  then show "Math_exp (Fin (2 * ln (1 / (1 + tiny)) + 2 * ln (tiny / (1 + tiny)))) = Fin 0"
    "Math_exp (Fin (2 * ln (tiny / (1 + tiny)) + 2 * ln (1 / (1 + tiny)))) = Fin 0"
    by (simp_all add: Math_exp_def add.commute)
qed

text \<open>
  Claim C1, failing input. On the graph of one binary variable \<open>V\<close> with four unary factors,
  two with the potentials \<^verbatim>\<open>1e-200\<close>, 1 and two with 1, \<^verbatim>\<open>1e-200\<close>, built with damping 0.3, the
  first sweep of \<open>runIterations\<close> sums the logarithms of the four incoming messages for each
  value, the exponential of both sums underflows to 0, the normalisation divides 0 by 0, and
  \<open>getBeliefs\<close> returns a vector of two \<^verbatim>\<open>NaN\<close>, whose sum is \<^verbatim>\<open>NaN\<close>: no probability
  distribution. The call completes and reports no convergence.
\<close>

theorem belief_underflows:
  "getBeliefs (state_of (fst (runIterations
       (state_of (fst (BeliefPropagation_new underflow_graph (Some (Fin (3 / 10))))))
       (Suc 0) None))) ''V'' = Inr [NaN, NaN]
   \<and> jsum [NaN, NaN] = NaN
   \<and> snd (runIterations
       (state_of (fst (BeliefPropagation_new underflow_graph (Some (Fin (3 / 10))))))
       (Suc 0) None) = [DidNotConvergeAfter (Suc 0)]"
  by (simp add: underflow_graph_def eval_simps sweep_steps rare_zero_def rare_one_def jgt_def
     assign_def indexOf_def logSumExp_single logSumExp_pair message_entries product_underflows
     getBeliefs_def)

end
